theory Spec2Isabelle
  imports Main "HOL-Library.Word" "HOL-Library.Sublist"
begin

unbundle bit_operations_syntax

section \<open>The SHT15 driver (drivers/hwmon/sht15.c): data model\<close>

type_synonym u8 = "8 word"
type_synonym u16 = "16 word"
type_synonym ulong = "32 word"

text \<open>Command bytes and status register bits, as the \<^verbatim>\<open>#define\<close>s give them.\<close>

definition SHT15_MEASURE_TEMP :: u8 where "SHT15_MEASURE_TEMP = 0x03"
definition SHT15_MEASURE_RH :: u8 where "SHT15_MEASURE_RH = 0x05"
definition SHT15_WRITE_STATUS :: u8 where "SHT15_WRITE_STATUS = 0x06"
definition SHT15_READ_STATUS :: u8 where "SHT15_READ_STATUS = 0x07"
definition SHT15_SOFT_RESET :: u8 where "SHT15_SOFT_RESET = 0x1E"

definition SHT15_TSCKL :: nat where "SHT15_TSCKL = 100"
definition SHT15_TSCKH :: nat where "SHT15_TSCKH = 100"
definition SHT15_TSU :: nat where "SHT15_TSU = 150"
definition SHT15_TSRST :: nat where "SHT15_TSRST = 11"

definition SHT15_STATUS_LOW_RESOLUTION :: u8 where "SHT15_STATUS_LOW_RESOLUTION = 0x01"
definition SHT15_STATUS_NO_OTP_RELOAD :: u8 where "SHT15_STATUS_NO_OTP_RELOAD = 0x02"
definition SHT15_STATUS_HEATER :: u8 where "SHT15_STATUS_HEATER = 0x04"
definition SHT15_STATUS_LOW_BATTERY :: u8 where "SHT15_STATUS_LOW_BATTERY = 0x40"

datatype sht15_state = SHT15_READING_NOTHING | SHT15_READING_TEMP | SHT15_READING_HUMID

record sht15_temppair =
  vdd :: int
  d1 :: int

text \<open>Table 9 of the data sheet: supply voltage in microvolts against the offset d1.\<close>

definition temppoints :: "sht15_temppair list" where
  "temppoints =
    [\<lparr>vdd = 2500000, d1 = - 39400\<rparr>,
     \<lparr>vdd = 3000000, d1 = - 39600\<rparr>,
     \<lparr>vdd = 3500000, d1 = - 39700\<rparr>,
     \<lparr>vdd = 4000000, d1 = - 39800\<rparr>,
     \<lparr>vdd = 5000000, d1 = - 40100\<rparr>]"

definition sht15_crc8_table :: "u8 list" where
  "sht15_crc8_table =
   [0, 49, 98, 83, 196, 245, 166, 151, 185, 136, 219, 234, 125, 76, 31,
    46, 67, 114, 33, 16, 135, 182, 229, 212, 250, 203, 152, 169, 62, 15,
    92, 109, 134, 183, 228, 213, 66, 115, 32, 17, 63, 14, 93, 108, 251,
    202, 153, 168, 197, 244, 167, 150, 1, 48, 99, 82, 124, 77, 30, 47,
    184, 137, 218, 235, 61, 12, 95, 110, 249, 200, 155, 170, 132, 181,
    230, 215, 64, 113, 34, 19, 126, 79, 28, 45, 186, 139, 216, 233, 199,
    246, 165, 148, 3, 50, 97, 80, 187, 138, 217, 232, 127, 78, 29, 44, 2,
    51, 96, 81, 198, 247, 164, 149, 248, 201, 154, 171, 60, 13, 94, 111,
    65, 112, 35, 18, 133, 180, 231, 214, 122, 75, 24, 41, 190, 143, 220,
    237, 195, 242, 161, 144, 7, 54, 101, 84, 57, 8, 91, 106, 253, 204,
    159, 174, 128, 177, 226, 211, 68, 117, 38, 23, 252, 205, 158, 175,
    56, 9, 90, 107, 69, 116, 39, 22, 129, 176, 227, 210, 191, 142, 221,
    236, 123, 74, 25, 40, 6, 55, 100, 85, 194, 243, 160, 145, 71, 118,
    37, 20, 131, 178, 225, 208, 254, 207, 156, 173, 58, 11, 88, 105, 4,
    53, 102, 87, 192, 241, 162, 147, 189, 140, 223, 238, 121, 72, 27, 42,
    193, 240, 163, 146, 5, 52, 103, 86, 120, 73, 26, 43, 188, 141, 222,
    239, 130, 179, 224, 209, 70, 119, 36, 21, 59, 10, 89, 104, 255, 206,
    157, 172]"

text \<open>
  The fields of \<^verbatim>\<open>struct sht15_data\<close> that the driver's logic reads or writes.
  \<^verbatim>\<open>unsigned long\<close> is 32 bits wide on the ARM target of this tree;
  \<^verbatim>\<open>int\<close> values are kept as integers in the 32-bit two's complement range
  (see \<open>s32\<close> below).
\<close>

record sht15_data =
  val_temp :: u16
  val_humid :: u16
  val_status :: u8
  checksum_ok :: bool
  checksumming :: bool
  state :: sht15_state
  measurements_valid :: bool
  status_valid :: bool
  last_measurement :: ulong
  last_status :: ulong
  supply_uV :: int
  supply_uV_valid :: bool
  interrupt_handled :: int

section \<open>Checksum: byte reversal and CRC-8\<close>

text \<open>
  \<^verbatim>\<open>for (c = 0, i = 0; i < 8; i++) c |= (!!(byte & (1 << i))) << (7 - i);\<close>
\<close>

function sht15_reverse_loop :: "u8 \<Rightarrow> nat \<Rightarrow> u8 \<Rightarrow> u8" where
  "sht15_reverse_loop byte i c =
     (if i < 8
      then sht15_reverse_loop byte (i + 1)
             (c OR push_bit (7 - i) (if byte AND push_bit i 1 \<noteq> 0 then 1 else 0))
      else c)"
  by pat_completeness auto
termination
  by (relation "measure (\<lambda>(byte, i, c). 8 - i)") auto

definition sht15_reverse :: "u8 \<Rightarrow> u8" where
  "sht15_reverse byte = sht15_reverse_loop byte 0 0"

text \<open>
  \<^verbatim>\<open>while (len--) { crc = sht15_crc8_table[*value ^ crc]; value++; }\<close>
  The buffer \<^verbatim>\<open>value\<close> with its length \<^verbatim>\<open>len\<close> is a list of bytes; the index
  \<^verbatim>\<open>*value ^ crc\<close> is a byte, so it is always inside the 256-entry table.
\<close>

fun sht15_crc8_loop :: "u8 \<Rightarrow> u8 list \<Rightarrow> u8" where
  "sht15_crc8_loop crc [] = crc"
| "sht15_crc8_loop crc (v # value) =
     sht15_crc8_loop (sht15_crc8_table ! unat (v XOR crc)) value"

definition sht15_crc8 :: "sht15_data \<Rightarrow> u8 list \<Rightarrow> u8" where
  "sht15_crc8 data value = sht15_crc8_loop (sht15_reverse (val_status data AND 0x0F)) value"

section \<open>Calibration: temperature\<close>

text \<open>
  C \<^verbatim>\<open>int\<close> arithmetic: the result of each operation is reduced to the 32-bit
  two's complement range (the kernel is built with wrapping signed overflow), and
  division truncates towards zero.
\<close>

definition s32 :: "int \<Rightarrow> int" where
  "s32 x = (x + 2 ^ 31) mod 2 ^ 32 - 2 ^ 31"

definition int_add :: "int \<Rightarrow> int \<Rightarrow> int" where
  "int_add a b = s32 (a + b)"

definition int_sub :: "int \<Rightarrow> int \<Rightarrow> int" where
  "int_sub a b = s32 (a - b)"

definition int_mul :: "int \<Rightarrow> int \<Rightarrow> int" where
  "int_mul a b = s32 (a * b)"

definition int_div :: "int \<Rightarrow> int \<Rightarrow> int" where
  "int_div a b = s32 (sgn a * sgn b * (\<bar>a\<bar> div \<bar>b\<bar>))"

text \<open>
  The body of the \<^verbatim>\<open>if\<close> in the loop of \<^verbatim>\<open>sht15_calc_temp\<close>, for the table
  entries \<open>lo = temppoints[i - 1]\<close> and \<open>hi = temppoints[i]\<close>.
\<close>

definition interpolate :: "sht15_temppair \<Rightarrow> sht15_temppair \<Rightarrow> int \<Rightarrow> int" where
  "interpolate lo hi uV =
     int_add
       (int_div (int_mul (int_sub uV (vdd lo)) (int_sub (d1 hi) (d1 lo)))
                (int_sub (vdd hi) (vdd lo)))
       (d1 lo)"

text \<open>
  \<^verbatim>\<open>for (i = ARRAY_SIZE(temppoints) - 1; i > 0; i--)
       if (data->supply_uV > temppoints[i - 1].vdd) { d1 = ...; break; }\<close>
  The first argument is the loop counter \<open>i\<close>; \<open>acc\<close> is the value of \<^verbatim>\<open>d1\<close>
  before the loop.
\<close>

fun sht15_calc_temp_loop :: "nat \<Rightarrow> int \<Rightarrow> int \<Rightarrow> int" where
  "sht15_calc_temp_loop 0 uV acc = acc"
| "sht15_calc_temp_loop (Suc k) uV acc =
     (if uV > vdd (temppoints ! k)
      then interpolate (temppoints ! k) (temppoints ! Suc k) uV
      else sht15_calc_temp_loop k uV acc)"

definition sht15_calc_d1 :: "sht15_data \<Rightarrow> int" where
  "sht15_calc_d1 data =
     sht15_calc_temp_loop (length temppoints - 1) (supply_uV data) (d1 (temppoints ! 0))"

definition sht15_calc_d2 :: "sht15_data \<Rightarrow> int" where
  "sht15_calc_d2 data =
     (if val_status data AND SHT15_STATUS_LOW_RESOLUTION \<noteq> 0 then 40 else 10)"

definition sht15_calc_temp :: "sht15_data \<Rightarrow> int" where
  "sht15_calc_temp data =
     int_add (int_mul (uint (val_temp data)) (sht15_calc_d2 data)) (sht15_calc_d1 data)"

section \<open>The two-wire bus and the kernel services the driver calls\<close>

text \<open>
  The driver talks to the sensor through two GPIO lines and a handful of kernel
  services. Each call is recorded, in program order, in a trace. Values read from the
  data line are taken from \<open>gpio_in\<close>, the levels that successive
  \<^verbatim>\<open>gpio_get_value(gpio_data)\<close> calls will see; the line has a pull-up, so it reads
  high once the list is used up. \<open>Send_cmd\<close> and \<open>Send_byte\<close> are recorded on entry
  to \<^verbatim>\<open>sht15_send_cmd\<close> and \<^verbatim>\<open>sht15_send_byte\<close> with their argument, so that
  the commands and bytes put on the bus can be read off the trace.
\<close>

datatype gpio = Gpio_sck | Gpio_data

datatype event =
    Gpio_direction_output gpio bool
  | Gpio_direction_input gpio
  | Gpio_set_value gpio bool
  | Ndelay nat
  | Msleep nat
  | Enable_irq
  | Disable_irq_nosync
  | Schedule_work
  | Wake_up
  | Dev_err
  | Wait_event_timeout nat
  | Send_cmd u8
  | Send_byte u8

record hw =
  gpio_in :: "bool list"
  trace :: "event list"
  irq_depth :: nat
  work_pending :: bool

datatype errno = EIO | EAGAIN | ETIME | EINVAL

type_synonym ret = "errno + unit"

definition emit :: "event \<Rightarrow> hw \<Rightarrow> hw" where
  "emit e w = w\<lparr>trace := trace w @ [e]\<rparr>"

definition gpio_direction_output :: "gpio \<Rightarrow> bool \<Rightarrow> hw \<Rightarrow> hw" where
  "gpio_direction_output g v = emit (Gpio_direction_output g v)"

definition gpio_direction_input :: "gpio \<Rightarrow> hw \<Rightarrow> hw" where
  "gpio_direction_input g = emit (Gpio_direction_input g)"

definition gpio_set_value :: "gpio \<Rightarrow> bool \<Rightarrow> hw \<Rightarrow> hw" where
  "gpio_set_value g v = emit (Gpio_set_value g v)"

definition gpio_get_value :: "hw \<Rightarrow> bool \<times> hw" where
  "gpio_get_value w =
     (case gpio_in w of [] \<Rightarrow> (True, w) | b # bs \<Rightarrow> (b, w\<lparr>gpio_in := bs\<rparr>))"

definition ndelay :: "nat \<Rightarrow> hw \<Rightarrow> hw" where
  "ndelay n = emit (Ndelay n)"

definition msleep :: "nat \<Rightarrow> hw \<Rightarrow> hw" where
  "msleep n = emit (Msleep n)"

text \<open>
  Interrupt delivery is nested: \<^verbatim>\<open>disable_irq_nosync\<close> raises the disable depth,
  \<^verbatim>\<open>enable_irq\<close> lowers it (an unbalanced enable leaves it at 0), and the line's
  interrupt is delivered only at depth 0.
\<close>

definition enable_irq :: "hw \<Rightarrow> hw" where
  "enable_irq w =
     emit Enable_irq (w\<lparr>irq_depth := (if irq_depth w = 0 then 0 else irq_depth w - 1)\<rparr>)"

definition disable_irq_nosync :: "hw \<Rightarrow> hw" where
  "disable_irq_nosync w = emit Disable_irq_nosync (w\<lparr>irq_depth := irq_depth w + 1\<rparr>)"

definition schedule_work :: "hw \<Rightarrow> hw" where
  "schedule_work w = emit Schedule_work (w\<lparr>work_pending := True\<rparr>)"

definition wake_up :: "hw \<Rightarrow> hw" where
  "wake_up = emit Wake_up"

definition dev_err :: "hw \<Rightarrow> hw" where
  "dev_err = emit Dev_err"

text \<open>
  \<^verbatim>\<open>time_after(a, b)\<close> of linux/jiffies.h is \<^verbatim>\<open>((long)(b) - (long)(a) < 0)\<close>: the
  difference is taken modulo the word size and read as signed.
\<close>

definition time_after :: "ulong \<Rightarrow> ulong \<Rightarrow> bool" where
  "time_after a b \<longleftrightarrow> sint (b - a) < 0"

section \<open>Bit and byte transport, transaction framing\<close>

primrec connection_reset_loop :: "nat \<Rightarrow> hw \<Rightarrow> hw" where
  "connection_reset_loop 0 w = w"
| "connection_reset_loop (Suc n) w =
     connection_reset_loop n
       (ndelay SHT15_TSCKL (gpio_set_value Gpio_sck False
         (ndelay SHT15_TSCKH (gpio_set_value Gpio_sck True w))))"

definition sht15_connection_reset :: "hw \<Rightarrow> hw" where
  "sht15_connection_reset w =
     connection_reset_loop 9
       (ndelay SHT15_TSCKL (gpio_set_value Gpio_sck False
         (ndelay SHT15_TSCKL (gpio_direction_output Gpio_data True w))))"

definition sht15_send_bit :: "bool \<Rightarrow> hw \<Rightarrow> hw" where
  "sht15_send_bit val w =
     ndelay SHT15_TSCKL (gpio_set_value Gpio_sck False
       (ndelay SHT15_TSCKH (gpio_set_value Gpio_sck True
         (ndelay SHT15_TSU (gpio_set_value Gpio_data val w)))))"

definition sht15_transmission_start :: "hw \<Rightarrow> hw" where
  "sht15_transmission_start w =
     (let w = gpio_direction_output Gpio_data True w;
          w = ndelay SHT15_TSU w;
          w = gpio_set_value Gpio_sck False w;
          w = ndelay SHT15_TSCKL w;
          w = gpio_set_value Gpio_sck True w;
          w = ndelay SHT15_TSCKH w;
          w = gpio_set_value Gpio_data False w;
          w = ndelay SHT15_TSU w;
          w = gpio_set_value Gpio_sck False w;
          w = ndelay SHT15_TSCKL w;
          w = gpio_set_value Gpio_sck True w;
          w = ndelay SHT15_TSCKH w;
          w = gpio_set_value Gpio_data True w;
          w = ndelay SHT15_TSU w;
          w = gpio_set_value Gpio_sck False w
      in ndelay SHT15_TSCKL w)"

text \<open>
  \<^verbatim>\<open>for (i = 0; i < 8; i++) { sht15_send_bit(data, !!(byte & 0x80)); byte <<= 1; }\<close>
  The first argument counts the iterations that remain.
\<close>

primrec send_byte_loop :: "nat \<Rightarrow> u8 \<Rightarrow> hw \<Rightarrow> hw" where
  "send_byte_loop 0 byte w = w"
| "send_byte_loop (Suc n) byte w =
     send_byte_loop n (push_bit 1 byte) (sht15_send_bit (byte AND 0x80 \<noteq> 0) w)"

definition sht15_send_byte :: "u8 \<Rightarrow> hw \<Rightarrow> hw" where
  "sht15_send_byte byte w = send_byte_loop 8 byte (emit (Send_byte byte) w)"

definition sht15_wait_for_response :: "hw \<Rightarrow> ret \<times> hw" where
  "sht15_wait_for_response w =
     (let w = gpio_direction_input Gpio_data w;
          w = gpio_set_value Gpio_sck True w;
          w = ndelay SHT15_TSCKH w
      in case gpio_get_value w of
           (True, w) \<Rightarrow>
             (Inl EIO, sht15_connection_reset (dev_err (gpio_set_value Gpio_sck False w)))
         | (False, w) \<Rightarrow>
             (Inr (), ndelay SHT15_TSCKL (gpio_set_value Gpio_sck False w)))"

definition sht15_send_cmd :: "u8 \<Rightarrow> hw \<Rightarrow> ret \<times> hw" where
  "sht15_send_cmd cmd w =
     sht15_wait_for_response
       (sht15_send_byte cmd (sht15_transmission_start (emit (Send_cmd cmd) w)))"

definition sht15_ack :: "hw \<Rightarrow> hw" where
  "sht15_ack w =
     (let w = gpio_direction_output Gpio_data False w;
          w = ndelay SHT15_TSU w;
          w = gpio_set_value Gpio_sck True w;
          w = ndelay SHT15_TSU w;
          w = gpio_set_value Gpio_sck False w;
          w = ndelay SHT15_TSU w;
          w = gpio_set_value Gpio_data True w
      in gpio_direction_input Gpio_data w)"

definition sht15_end_transmission :: "hw \<Rightarrow> hw" where
  "sht15_end_transmission w =
     (let w = gpio_direction_output Gpio_data True w;
          w = ndelay SHT15_TSU w;
          w = gpio_set_value Gpio_sck True w;
          w = ndelay SHT15_TSCKH w;
          w = gpio_set_value Gpio_sck False w
      in ndelay SHT15_TSCKL w)"

text \<open>
  \<^verbatim>\<open>for (i = 0; i < 8; ++i) { byte <<= 1; ...; byte |= !!gpio_get_value(...); ... }\<close>
\<close>

primrec read_byte_loop :: "nat \<Rightarrow> u8 \<Rightarrow> hw \<Rightarrow> u8 \<times> hw" where
  "read_byte_loop 0 byte w = (byte, w)"
| "read_byte_loop (Suc n) byte w =
     (case gpio_get_value (ndelay SHT15_TSCKH (gpio_set_value Gpio_sck True w)) of
        (v, w) \<Rightarrow>
          read_byte_loop n (push_bit 1 byte OR (if v then 1 else 0))
            (ndelay SHT15_TSCKL (gpio_set_value Gpio_sck False w)))"

definition sht15_read_byte :: "hw \<Rightarrow> u8 \<times> hw" where
  "sht15_read_byte w = read_byte_loop 8 0 w"

section \<open>Command protocol\<close>

text \<open>
  Driver routines take the device data and the hardware together and return both,
  next to the C return value: \<open>Inr ()\<close> for 0 and \<open>Inl e\<close> for \<open>-e\<close>.
\<close>

definition sht15_soft_reset :: "sht15_data \<times> hw \<Rightarrow> ret \<times> sht15_data \<times> hw" where
  "sht15_soft_reset s =
     (case s of (data, w) \<Rightarrow>
        (case sht15_send_cmd SHT15_SOFT_RESET w of
           (Inl e, w) \<Rightarrow> (Inl e, data, w)
         | (Inr u, w) \<Rightarrow> (Inr (), data\<lparr>val_status := 0\<rparr>, msleep SHT15_TSRST w)))"

definition sht15_send_status :: "u8 \<Rightarrow> sht15_data \<times> hw \<Rightarrow> ret \<times> sht15_data \<times> hw" where
  "sht15_send_status status s =
     (case s of (data, w) \<Rightarrow>
        (case sht15_send_cmd SHT15_WRITE_STATUS w of
           (Inl e, w) \<Rightarrow> (Inl e, data, w)
         | (Inr u, w) \<Rightarrow>
             (case sht15_wait_for_response
                     (sht15_send_byte status
                       (ndelay SHT15_TSU (gpio_direction_output Gpio_data True w))) of
                (Inl e, w) \<Rightarrow> (Inl e, data, w)
              | (Inr u, w) \<Rightarrow> (Inr (), data\<lparr>val_status := status\<rparr>, w))))"

text \<open>
  The block that follows a failed checksum, written out in the same words in
  \<^verbatim>\<open>sht15_update_status\<close> and in \<^verbatim>\<open>sht15_measurement\<close>:
  \<^verbatim>\<open>previous_config = data->val_status & 0x07; ret = sht15_soft_reset(data); ...\<close>
\<close>

definition checksum_recovery :: "sht15_data \<times> hw \<Rightarrow> ret \<times> sht15_data \<times> hw" where
  "checksum_recovery s =
     (let previous_config = val_status (fst s) AND 0x07
      in case sht15_soft_reset s of
           (Inl e, data, w) \<Rightarrow> (Inl e, data, w)
         | (Inr u, data, w) \<Rightarrow>
             if previous_config \<noteq> 0
             then (case sht15_send_status previous_config (data, w) of
                     (Inl e, data, w) \<Rightarrow> (Inl e, data, dev_err w)
                   | (Inr u, data, w) \<Rightarrow> (Inl EAGAIN, data, w))
             else (Inl EAGAIN, data, w))"

text \<open>
  \<open>HZ\<close> is a build-time constant and \<^verbatim>\<open>jiffies\<close> a clock that the routine reads
  twice: \<open>jiffies0\<close> is the value seen by the staleness test, \<open>jiffies1\<close> the value
  stored as the new time stamp. The mutex only serialises callers; the model runs one
  caller at a time.
\<close>

definition sht15_update_status ::
    "ulong \<Rightarrow> ulong \<Rightarrow> ulong \<Rightarrow> sht15_data \<times> hw \<Rightarrow> ret \<times> sht15_data \<times> hw" where
  "sht15_update_status HZ jiffies0 jiffies1 s =
     (case s of (data, w) \<Rightarrow>
        if time_after jiffies0 (last_status data + HZ) \<or> \<not> status_valid data
        then
          (case sht15_send_cmd SHT15_READ_STATUS w of
             (Inl e, w) \<Rightarrow> (Inl e, data, w)
           | (Inr u, w) \<Rightarrow>
               (case sht15_read_byte w of (status, w) \<Rightarrow>
                  (case (if checksumming data
                         then (case sht15_read_byte (sht15_ack w) of (b, w) \<Rightarrow>
                                 (data\<lparr>checksum_ok :=
                                    (sht15_crc8 data [SHT15_READ_STATUS, status]
                                       = sht15_reverse b)\<rparr>, w))
                         else (data, w)) of
                     (data, w) \<Rightarrow>
                       (let w = sht15_end_transmission w
                        in if checksumming data \<and> \<not> checksum_ok data
                           then checksum_recovery (data, w)
                           else (Inr (),
                                 data\<lparr>val_status := status, status_valid := True,
                                        last_status := jiffies1\<rparr>, w)))))
        else (Inr (), data, w))"

section \<open>Asynchronous completion\<close>

definition sht15_interrupt_fired :: "sht15_data \<times> hw \<Rightarrow> sht15_data \<times> hw" where
  "sht15_interrupt_fired s =
     (case s of (data, w) \<Rightarrow>
        (let w = disable_irq_nosync w;
             data = data\<lparr>interrupt_handled := int_add (interrupt_handled data) 1\<rparr>
         in (data, if state data \<noteq> SHT15_READING_NOTHING then schedule_work w else w)))"

text \<open>
  A point of the code at which the data line's interrupt may come in: it is delivered
  when the line falls there (\<open>edge\<close>) and the interrupt is enabled.
\<close>

definition irq_window :: "bool \<Rightarrow> sht15_data \<times> hw \<Rightarrow> sht15_data \<times> hw" where
  "irq_window edge s = (if edge \<and> irq_depth (snd s) = 0 then sht15_interrupt_fired s else s)"

text \<open>The part of \<^verbatim>\<open>sht15_bh_read_data\<close> after the line has been found low.\<close>

definition bh_read_values :: "sht15_data \<times> hw \<Rightarrow> sht15_data \<times> hw" where
  "bh_read_values s =
     (case s of (data, w) \<Rightarrow>
      (case sht15_read_byte w of (hi, w) \<Rightarrow>
      (case sht15_read_byte (sht15_ack w) of (lo, w) \<Rightarrow>
        (let val = push_bit 8 (ucast hi :: u16) OR ucast lo
         in case (if checksumming data
                  then (case sht15_read_byte (sht15_ack w) of (b, w) \<Rightarrow>
                          (data\<lparr>checksum_ok :=
                             (sht15_crc8 data
                                [if state data = SHT15_READING_TEMP
                                 then SHT15_MEASURE_TEMP else SHT15_MEASURE_RH,
                                 ucast (drop_bit 8 val), ucast val]
                              = sht15_reverse b)\<rparr>, w))
                  else (data, w)) of
              (data, w) \<Rightarrow>
                (let w = sht15_end_transmission w;
                     data = (case state data of
                               SHT15_READING_TEMP \<Rightarrow> data\<lparr>val_temp := val\<rparr>
                             | SHT15_READING_HUMID \<Rightarrow> data\<lparr>val_humid := val\<rparr>
                             | SHT15_READING_NOTHING \<Rightarrow> data)
                 in (data\<lparr>state := SHT15_READING_NOTHING\<rparr>, wake_up w))))))"

text \<open>
  \<open>edge\<close> says whether the line falls between the \<^verbatim>\<open>enable_irq\<close> of the handler
  and its second look at the line.
\<close>

definition sht15_bh_read_data :: "bool \<Rightarrow> sht15_data \<times> hw \<Rightarrow> sht15_data \<times> hw" where
  "sht15_bh_read_data edge s =
     (case s of (data, w) \<Rightarrow>
        (case gpio_get_value w of
           (True, w) \<Rightarrow>
             (case irq_window edge (data\<lparr>interrupt_handled := 0\<rparr>, enable_irq w) of
                (data, w) \<Rightarrow>
                  (case gpio_get_value w of (v, w) \<Rightarrow>
                     if v \<or> interrupt_handled data \<noteq> 0 then (data, w)
                     else bh_read_values (data, w)))
         | (False, w) \<Rightarrow> bh_read_values (data, w)))"

text \<open>
  What happens while the caller sleeps in \<^verbatim>\<open>wait_event_timeout\<close> is given by a
  schedule: the data line falls (\<open>Irq_edge\<close>), or the work queue gets the processor
  (\<open>Work_runs\<close>, with the \<open>edge\<close> of \<open>sht15_bh_read_data\<close>) and runs the read work if it
  is pending. The end of the schedule is the end of the timeout. The result is 0 when
  the condition \<^verbatim>\<open>data->state == SHT15_READING_NOTHING\<close> is still false then, and
  positive otherwise.
\<close>

datatype wait_event = Irq_edge | Work_runs bool

fun wait_loop :: "wait_event list \<Rightarrow> sht15_data \<times> hw \<Rightarrow> nat \<times> sht15_data \<times> hw" where
  "wait_loop [] (data, w) =
     ((if state data = SHT15_READING_NOTHING then 1 else 0), data, w)"
| "wait_loop (e # es) (data, w) =
     (if state data = SHT15_READING_NOTHING then (1 + length es, data, w)
      else case e of
             Irq_edge \<Rightarrow> wait_loop es (irq_window True (data, w))
           | Work_runs edge \<Rightarrow>
               wait_loop es
                 (if work_pending w
                  then sht15_bh_read_data edge (data, w\<lparr>work_pending := False\<rparr>)
                  else (data, w)))"

definition wait_event_timeout ::
    "wait_event list \<Rightarrow> nat \<Rightarrow> sht15_data \<times> hw \<Rightarrow> nat \<times> sht15_data \<times> hw" where
  "wait_event_timeout sched timeout_msecs s =
     (case s of (data, w) \<Rightarrow> wait_loop sched (data, emit (Wait_event_timeout timeout_msecs) w))"

text \<open>
  The surroundings of one measurement: whether the line falls between
  \<^verbatim>\<open>enable_irq\<close> and the look at the line, and the schedule of the wait.
\<close>

record measurement_env =
  irq_on_enable :: bool
  wait_sched :: "wait_event list"

definition sht15_measurement ::
    "measurement_env \<Rightarrow> u8 \<Rightarrow> nat \<Rightarrow> sht15_data \<times> hw \<Rightarrow> ret \<times> sht15_data \<times> hw" where
  "sht15_measurement env command timeout_msecs s =
     (case s of (data, w) \<Rightarrow>
        (case sht15_send_cmd command w of
           (Inl e, w) \<Rightarrow> (Inl e, data, w)
         | (Inr u, w) \<Rightarrow>
             (case irq_window (irq_on_enable env)
                     (data\<lparr>interrupt_handled := 0\<rparr>,
                      enable_irq (gpio_direction_input Gpio_data w)) of
                (data, w) \<Rightarrow>
                  (case gpio_get_value w of (v, w) \<Rightarrow>
                     (let w = (if \<not> v
                               then (let w = disable_irq_nosync w
                                     in if interrupt_handled data = 0
                                        then schedule_work w else w)
                               else w)
                      in case wait_event_timeout (wait_sched env) timeout_msecs (data, w) of
                           (r, data, w) \<Rightarrow>
                             if r = 0
                             then (Inl ETIME, data,
                                   sht15_connection_reset (disable_irq_nosync w))
                             else if checksumming data \<and> \<not> checksum_ok data
                             then checksum_recovery (data, w)
                             else (Inr (), data, w))))))"

definition sht15_update_measurements ::
    "ulong \<Rightarrow> ulong \<Rightarrow> ulong \<Rightarrow> measurement_env \<Rightarrow> measurement_env \<Rightarrow>
     sht15_data \<times> hw \<Rightarrow> ret \<times> sht15_data \<times> hw" where
  "sht15_update_measurements HZ jiffies0 jiffies1 env_humid env_temp s =
     (case s of (data, w) \<Rightarrow>
        if time_after jiffies0 (last_measurement data + HZ) \<or> \<not> measurements_valid data
        then
          (case sht15_measurement env_humid SHT15_MEASURE_RH 160
                  (data\<lparr>state := SHT15_READING_HUMID\<rparr>, w) of
             (Inl e, data, w) \<Rightarrow> (Inl e, data, w)
           | (Inr u, data, w) \<Rightarrow>
               (case sht15_measurement env_temp SHT15_MEASURE_TEMP 400
                       (data\<lparr>state := SHT15_READING_TEMP\<rparr>, w) of
                  (Inl e, data, w) \<Rightarrow> (Inl e, data, w)
                | (Inr u, data, w) \<Rightarrow>
                    (Inr (), data\<lparr>measurements_valid := True,
                                   last_measurement := jiffies1\<rparr>, w)))
        else (Inr (), data, w))"

section \<open>Heater control\<close>

text \<open>
  \<open>value\<close> is what \<^verbatim>\<open>kstrtol(buf, 10, &value)\<close> made of the buffer: \<open>None\<close> when
  it does not parse.
\<close>

definition sht15_store_heater ::
    "int option \<Rightarrow> nat \<Rightarrow> sht15_data \<times> hw \<Rightarrow> (errno + nat) \<times> sht15_data \<times> hw" where
  "sht15_store_heater value count s =
     (case s of (data, w) \<Rightarrow>
        (case value of
           None \<Rightarrow> (Inl EINVAL, data, w)
         | Some v \<Rightarrow>
             (let status = val_status data AND 0x07;
                  status = (if v \<noteq> 0 then status OR SHT15_STATUS_HEATER
                            else status AND NOT SHT15_STATUS_HEATER)
              in case sht15_send_status status (data, w) of
                   (Inl e, data, w) \<Rightarrow> (Inl e, data, w)
                 | (Inr u, data, w) \<Rightarrow> (Inr count, data, w))))"

section \<open>Reading the trace\<close>

text \<open>
  The calls that matter to the command protocol: commands and bytes sent, sleeps and
  bounded waits. \<open>calls w\<close> is their sequence so far, \<open>new_calls w w'\<close> those made
  between \<open>w\<close> and a later \<open>w'\<close>, and \<open>cmds_of\<close> keeps the command bytes.
\<close>

fun is_call :: "event \<Rightarrow> bool" where
  "is_call (Send_cmd c) = True"
| "is_call (Send_byte b) = True"
| "is_call (Msleep n) = True"
| "is_call (Wait_event_timeout n) = True"
| "is_call e = False"

definition calls :: "hw \<Rightarrow> event list" where
  "calls w = filter is_call (trace w)"

definition new_calls :: "hw \<Rightarrow> hw \<Rightarrow> event list" where
  "new_calls w w' = drop (length (calls w)) (calls w')"

fun cmd_of :: "event \<Rightarrow> u8 list" where
  "cmd_of (Send_cmd c) = [c]"
| "cmd_of e = []"

definition cmds_of :: "event list \<Rightarrow> u8 list" where
  "cmds_of evs = concat (map cmd_of evs)"

text \<open>
  The bytes sent that are not command bytes: a \<open>Send_byte\<close> that does not directly
  follow a \<open>Send_cmd\<close>. The driver sends such a byte only as the argument of a
  write-status command.
\<close>

primrec data_bytes_from :: "bool \<Rightarrow> event list \<Rightarrow> u8 list" where
  "data_bytes_from after_cmd [] = []"
| "data_bytes_from after_cmd (e # evs) =
     (case e of
        Send_cmd c \<Rightarrow> data_bytes_from True evs
      | Send_byte b \<Rightarrow> (if after_cmd then [] else [b]) @ data_bytes_from False evs
      | _ \<Rightarrow> data_bytes_from False evs)"

definition data_bytes :: "event list \<Rightarrow> u8 list" where
  "data_bytes evs = data_bytes_from False evs"

text \<open>
  The line events of a connection reset (section 3.4 of the data sheet): the data line
  is driven high, the clock goes low, and nine clock pulses follow.
\<close>

definition connection_reset_events :: "event list" where
  "connection_reset_events =
     [Gpio_direction_output Gpio_data True, Ndelay 100,
      Gpio_set_value Gpio_sck False, Ndelay 100]
     @ concat (replicate 9
         [Gpio_set_value Gpio_sck True, Ndelay 100,
          Gpio_set_value Gpio_sck False, Ndelay 100])"

text \<open>The steps of a measurement cycle: a measurement command, and a bounded wait.\<close>

fun is_measurement_step :: "event \<Rightarrow> bool" where
  "is_measurement_step (Send_cmd c) = (c = SHT15_MEASURE_RH \<or> c = SHT15_MEASURE_TEMP)"
| "is_measurement_step (Wait_event_timeout n) = True"
| "is_measurement_step e = False"

text \<open>The call sequences of the recovery block, for the configuration bits \<open>pc\<close>.\<close>

definition recovery_calls :: "u8 \<Rightarrow> event list set" where
  "recovery_calls pc =
     {[Send_cmd SHT15_SOFT_RESET, Send_byte SHT15_SOFT_RESET],
      [Send_cmd SHT15_SOFT_RESET, Send_byte SHT15_SOFT_RESET, Msleep 11],
      [Send_cmd SHT15_SOFT_RESET, Send_byte SHT15_SOFT_RESET, Msleep 11,
       Send_cmd SHT15_WRITE_STATUS, Send_byte SHT15_WRITE_STATUS],
      [Send_cmd SHT15_SOFT_RESET, Send_byte SHT15_SOFT_RESET, Msleep 11,
       Send_cmd SHT15_WRITE_STATUS, Send_byte SHT15_WRITE_STATUS, Send_byte pc]}"

section \<open>Example inputs\<close>

text \<open>
  A session with checksumming switched on and nothing cached, and a bus on which the
  data line will show the given levels; the interrupt is disabled once, as it is after
  probing.
\<close>

definition session0 :: sht15_data where
  "session0 = \<lparr>val_temp = 0, val_humid = 0, val_status = 0, checksum_ok = False,
     checksumming = True, state = SHT15_READING_NOTHING, measurements_valid = False,
     status_valid = False, last_measurement = 0, last_status = 0, supply_uV = 3300000,
     supply_uV_valid = True, interrupt_handled = 0\<rparr>"

definition bus0 :: "bool list \<Rightarrow> hw" where
  "bus0 levels = \<lparr>gpio_in = levels, trace = [], irq_depth = 1, work_pending = False\<rparr>"


section \<open>Reference definitions, in the words of the specification\<close>

text \<open>The bit-reversal of a byte: bit \<open>n\<close> of the result is bit \<open>7 - n\<close> of the byte.\<close>

definition bit_reversal :: "u8 \<Rightarrow> u8" where
  "bit_reversal b = horner_sum of_bool 2 (map (\<lambda>n. bit b (7 - n)) [0..<8])"

text \<open>
  The reference table-driven CRC-8: starting from the bit-reversal of the seed nibble,
  each byte replaces the checksum by the table entry at (byte XOR checksum).
\<close>

definition crc8_reference :: "u8 \<Rightarrow> u8 list \<Rightarrow> u8" where
  "crc8_reference seed bytes =
     foldl (\<lambda>crc b. sht15_crc8_table ! unat (b XOR crc)) (bit_reversal (seed AND 0x0F)) bytes"

text \<open>
  The two bracketing points of a supply voltage in an ascending table: neighbours
  \<open>lo\<close>, \<open>hi\<close> with \<open>vdd lo < uV \<le> vdd hi\<close>. The linear interpolation between them,
  in exact integer arithmetic with the quotient truncated.
\<close>

fun bracketing :: "sht15_temppair list \<Rightarrow> int \<Rightarrow> (sht15_temppair \<times> sht15_temppair) option" where
  "bracketing (lo # hi # ps) uV =
     (if vdd lo < uV \<and> uV \<le> vdd hi then Some (lo, hi) else bracketing (hi # ps) uV)"
| "bracketing ps uV = None"

definition linear_offset :: "sht15_temppair \<Rightarrow> sht15_temppair \<Rightarrow> int \<Rightarrow> int" where
  "linear_offset lo hi uV =
     d1 lo + (let p = (uV - vdd lo) * (d1 hi - d1 lo); q = vdd hi - vdd lo
              in sgn p * sgn q * (\<bar>p\<bar> div \<bar>q\<bar>))"

definition spec_offset :: "int \<Rightarrow> int option" where
  "spec_offset uV =
     (if uV \<le> vdd (hd temppoints) then Some (d1 (hd temppoints))
      else map_option (\<lambda>(lo, hi). linear_offset lo hi uV) (bracketing temppoints uV))"

text \<open>
  The fields that the interrupt handler, the read work and the wait leave alone: the
  status mirror, the checksum switch, the validity flags, the time stamps and the
  supply voltage.
\<close>

definition same_settings :: "sht15_data \<Rightarrow> sht15_data \<Rightarrow> bool" where
  "same_settings d d' \<longleftrightarrow>
     val_status d' = val_status d \<and> checksumming d' = checksumming d
     \<and> measurements_valid d' = measurements_valid d \<and> status_valid d' = status_valid d
     \<and> last_measurement d' = last_measurement d \<and> last_status d' = last_status d
     \<and> supply_uV d' = supply_uV d \<and> supply_uV_valid d' = supply_uV_valid d"

section \<open>Checksum: proofs\<close>

declare sht15_reverse_loop.simps [simp del]

lemma bit_one_shifted:
  "bit (push_bit m (if P then 1 else 0 :: u8)) n \<longleftrightarrow> P \<and> n = m \<and> m < 8"
  by (auto simp add: bit_push_bit_iff bit_1_iff)

lemma test_bit_mask: "(byte AND push_bit i 1 \<noteq> 0) = bit (byte :: u8) i"
  by (simp only: bit_iff_and_push_bit_not_eq_0)

text \<open>
  Loop invariant of \<open>sht15_reverse_loop\<close>: the bits already in \<open>c\<close> stay, and the
  iterations from \<open>i\<close> on add bit \<open>7 - n\<close> of the byte at position \<open>n\<close>.
\<close>

lemma reverse_loop_bit:
  "i \<le> 8 \<Longrightarrow> bit (sht15_reverse_loop byte i c) n \<longleftrightarrow>
     bit c n \<or> (n < 8 \<and> i \<le> 7 - n \<and> bit byte (7 - n))"
proof (induction byte i c rule: sht15_reverse_loop.induct)
  case (1 byte i c)
  show ?case
  proof (cases "i < 8")
    case True
    have "bit (sht15_reverse_loop byte i c) n \<longleftrightarrow>
          bit (sht15_reverse_loop byte (i + 1)
             (c OR push_bit (7 - i) (if byte AND push_bit i 1 \<noteq> 0 then 1 else 0))) n"
      using True by (subst sht15_reverse_loop.simps) simp
    also have "\<dots> \<longleftrightarrow> (bit c n \<or> (bit byte i \<and> n = 7 - i)) \<or>
         (n < 8 \<and> i + 1 \<le> 7 - n \<and> bit byte (7 - n))"
      using True "1.IH" [OF True]
      by (simp only: test_bit_mask bit_or_iff bit_one_shifted) auto
    also have "\<dots> \<longleftrightarrow> bit c n \<or> (n < 8 \<and> i \<le> 7 - n \<and> bit byte (7 - n))"
      using True by (cases "i = 7 - n") auto
    finally show ?thesis .
  next
    case False
    then show ?thesis using "1.prems"
      by (subst sht15_reverse_loop.simps) auto
  qed
qed

lemma reverse_bit: "bit (sht15_reverse b) n \<longleftrightarrow> n < 8 \<and> bit b (7 - n)"
  by (simp add: sht15_reverse_def reverse_loop_bit)

lemma bit_reversal_bit: "bit (bit_reversal b) n \<longleftrightarrow> n < 8 \<and> bit b (7 - n)"
  by (auto simp add: bit_reversal_def bit_horner_sum_bit_iff simp del: upt_Suc)

lemma reverse_is_bit_reversal: "sht15_reverse b = bit_reversal b"
  by (rule bit_word_eqI) (simp add: reverse_bit bit_reversal_bit)

lemma reverse_involution: "sht15_reverse (sht15_reverse b) = b"
  by (rule bit_word_eqI) (auto simp add: reverse_bit)

lemma crc8_loop_foldl:
  "sht15_crc8_loop crc value = foldl (\<lambda>crc b. sht15_crc8_table ! unat (b XOR crc)) crc value"
  by (induction "value" arbitrary: crc) simp_all

text \<open>
  C9. For every status mirror (hence every seed nibble) and every byte sequence,
  \<open>sht15_crc8\<close> is a function of the seed nibble and the bytes that equals the
  reference table-driven checksum started from the bit-reversal of the seed nibble;
  \<open>sht15_reverse\<close> is an involution, so a computed checksum reversed and reversed
  again is the checksum itself.
\<close>

theorem crc8_is_reference_and_reverse_is_involution:
  "sht15_crc8 data bytes = crc8_reference (val_status data) bytes
   \<and> sht15_reverse (sht15_reverse b) = b
   \<and> sht15_reverse (sht15_reverse (sht15_crc8 data bytes)) = sht15_crc8 data bytes"
  by (simp add: sht15_crc8_def crc8_reference_def crc8_loop_foldl
        reverse_is_bit_reversal [symmetric] reverse_involution)

section \<open>Calibration: proofs\<close>

lemma s32_id: "- 2147483648 \<le> x \<Longrightarrow> x < 2147483648 \<Longrightarrow> s32 x = x"
  by (simp add: s32_def)

lemma calc_d1_cases:
  "sht15_calc_d1 data =
    (let uV = supply_uV data in
     if uV > 4000000 then interpolate (temppoints ! 3) (temppoints ! 4) uV
     else if uV > 3500000 then interpolate (temppoints ! 2) (temppoints ! 3) uV
     else if uV > 3000000 then interpolate (temppoints ! 1) (temppoints ! 2) uV
     else if uV > 2500000 then interpolate (temppoints ! 0) (temppoints ! 1) uV
     else - 39400)"
  by (simp add: sht15_calc_d1_def temppoints_def numeral_eq_Suc Let_def)

lemmas int_ops = interpolate_def int_add_def int_sub_def int_mul_def int_div_def

text \<open>
  C1, as stated, fails: at 3300000 microvolts the interpolated offset is not -39620
  and the temperature for the raw code 800 is not 7380.
\<close>

theorem calc_temp_example_counterexample:
  "\<not> (sht15_calc_d1 \<lparr>val_temp = 800, val_humid = 0, val_status = 0, checksum_ok = False, checksumming = False, state = SHT15_READING_NOTHING, measurements_valid = False, status_valid = False, last_measurement = 0, last_status = 0, supply_uV = 3300000, supply_uV_valid = True, interrupt_handled = 0\<rparr> = - 39620 \<and> sht15_calc_temp \<lparr>val_temp = 800, val_humid = 0, val_status = 0, checksum_ok = False, checksumming = False, state = SHT15_READING_NOTHING, measurements_valid = False, status_valid = False, last_measurement = 0, last_status = 0, supply_uV = 3300000, supply_uV_valid = True, interrupt_handled = 0\<rparr> = 7380)"
  by (simp add: calc_d1_cases temppoints_def int_ops s32_def)

text \<open>
  C1, amended. With \<open>supply_uV = 3300000\<close>, the low-resolution bit clear and the raw
  code 800, the slope d2 is 10, the offset is interpolated between the table points
  (3000000, -39600) and (3500000, -39700) and equals -39660, and the temperature
  \<open>val_temp * d2 + d1\<close> is -31660.
\<close>

theorem calc_temp_example:
  assumes "supply_uV data = 3300000"
    and "val_status data AND SHT15_STATUS_LOW_RESOLUTION = 0"
    and "val_temp data = 800"
  shows "sht15_calc_d2 data = 10
    \<and> sht15_calc_d1 data =
        interpolate \<lparr>vdd = 3000000, d1 = - 39600\<rparr> \<lparr>vdd = 3500000, d1 = - 39700\<rparr> 3300000
    \<and> sht15_calc_d1 data = - 39660
    \<and> sht15_calc_temp data = - 31660"
proof -
  have d2: "sht15_calc_d2 data = 10"
    using assms(2) by (simp add: sht15_calc_d2_def)
  have sel: "sht15_calc_d1 data =
      interpolate \<lparr>vdd = 3000000, d1 = - 39600\<rparr> \<lparr>vdd = 3500000, d1 = - 39700\<rparr> 3300000"
    using assms(1) by (simp add: calc_d1_cases temppoints_def)
  have val: "interpolate \<lparr>vdd = 3000000, d1 = - 39600\<rparr> \<lparr>vdd = 3500000, d1 = - 39700\<rparr> 3300000
      = - 39660"
    by (simp add: int_ops s32_def)
  have "sht15_calc_temp data = - 31660"
    using assms(3) by (simp add: sht15_calc_temp_def d2 sel val int_ops s32_def)
  with d2 sel val show ?thesis by simp
qed

theorem calc_temp_example_witness:
  "sht15_calc_d2 \<lparr>val_temp = 800, val_humid = 0, val_status = 0, checksum_ok = False, checksumming = False, state = SHT15_READING_NOTHING, measurements_valid = False, status_valid = False, last_measurement = 0, last_status = 0, supply_uV = 3300000, supply_uV_valid = True, interrupt_handled = 0\<rparr> = 10 \<and> sht15_calc_d1 \<lparr>val_temp = 800, val_humid = 0, val_status = 0, checksum_ok = False, checksumming = False, state = SHT15_READING_NOTHING, measurements_valid = False, status_valid = False, last_measurement = 0, last_status = 0, supply_uV = 3300000, supply_uV_valid = True, interrupt_handled = 0\<rparr> = - 39660 \<and> sht15_calc_temp \<lparr>val_temp = 800, val_humid = 0, val_status = 0, checksum_ok = False, checksumming = False, state = SHT15_READING_NOTHING, measurements_valid = False, status_valid = False, last_measurement = 0, last_status = 0, supply_uV = 3300000, supply_uV_valid = True, interrupt_handled = 0\<rparr> = - 31660"
  using calc_temp_example [of "\<lparr>val_temp = 800, val_humid = 0, val_status = 0, checksum_ok = False, checksumming = False, state = SHT15_READING_NOTHING, measurements_valid = False, status_valid = False, last_measurement = 0, last_status = 0, supply_uV = 3300000, supply_uV_valid = True, interrupt_handled = 0\<rparr>"]
  by (simp add: SHT15_STATUS_LOW_RESOLUTION_def)

text \<open>
  C7, as stated, fails above the table: 6000000 microvolts has no bracketing pair of
  table points, and the offset computed there, -40400, lies below every offset of the
  table.
\<close>

theorem calc_temp_offset_counterexample:
  "spec_offset 6000000 = None \<and> sht15_calc_d1 \<lparr>val_temp = 800, val_humid = 0, val_status = 0, checksum_ok = False, checksumming = False, state = SHT15_READING_NOTHING, measurements_valid = False, status_valid = False, last_measurement = 0, last_status = 0, supply_uV = 6000000, supply_uV_valid = True, interrupt_handled = 0\<rparr> = - 40400"
  by (simp add: spec_offset_def calc_d1_cases temppoints_def int_ops s32_def)

lemma interpolate_in_range:
  assumes "vdd lo < uV" "uV \<le> vdd hi" "vdd hi - vdd lo \<le> 1000000"
    and "\<bar>d1 hi - d1 lo\<bar> \<le> 300" "\<bar>d1 lo\<bar> \<le> 50000"
    and "\<bar>vdd lo\<bar> \<le> 5000000" "\<bar>vdd hi\<bar> \<le> 5000000"
  shows "interpolate lo hi uV = linear_offset lo hi uV"
proof -
  let ?a = "uV - vdd lo" and ?b = "d1 hi - d1 lo" and ?q = "vdd hi - vdd lo"
  have a: "0 < ?a" "?a \<le> 1000000" using assms by auto
  have "\<bar>?a * ?b\<bar> = ?a * \<bar>?b\<bar>" using a by (simp add: abs_mult)
  also have "\<dots> \<le> 1000000 * 300"
    using a assms(4) by (intro mult_mono) auto
  finally have p: "\<bar>?a * ?b\<bar> \<le> 300000000" by simp
  have q: "0 < ?q" "?q \<le> 1000000" using assms by auto
  have "\<bar>?a * ?b\<bar> div \<bar>?q\<bar> \<le> \<bar>?a * ?b\<bar> div 1"
    using q by (intro zdiv_mono2) auto
  with p have d: "\<bar>?a * ?b\<bar> div \<bar>?q\<bar> \<le> 300000000" "0 \<le> \<bar>?a * ?b\<bar> div \<bar>?q\<bar>"
    using q by (auto simp add: pos_imp_zdiv_nonneg_iff)
  have sg: "\<bar>sgn (?a * ?b) * sgn ?q * (\<bar>?a * ?b\<bar> div \<bar>?q\<bar>)\<bar> \<le> 300000000"
    using d by (simp add: abs_mult abs_sgn_eq)
  have 1: "s32 ?a = ?a" using a by (intro s32_id) auto
  have 2: "s32 ?b = ?b" using assms(4) by (intro s32_id) auto
  have 3: "s32 ?q = ?q" using q by (intro s32_id) auto
  have 4: "s32 (?a * ?b) = ?a * ?b" using p by (intro s32_id) auto
  have 5: "s32 (sgn (?a * ?b) * sgn ?q * (\<bar>?a * ?b\<bar> div \<bar>?q\<bar>))
           = sgn (?a * ?b) * sgn ?q * (\<bar>?a * ?b\<bar> div \<bar>?q\<bar>)"
    using sg by (intro s32_id) auto
  have 6: "s32 (sgn (?a * ?b) * sgn ?q * (\<bar>?a * ?b\<bar> div \<bar>?q\<bar>) + d1 lo)
           = sgn (?a * ?b) * sgn ?q * (\<bar>?a * ?b\<bar> div \<bar>?q\<bar>) + d1 lo"
    using sg assms(5) by (intro s32_id) auto
  show ?thesis
    by (simp add: int_ops linear_offset_def Let_def 1 2 3 4 5 6)
qed

text \<open>
  C7, amended. At or below 2500000 microvolts the offset is the lowest entry's -39400,
  without interpolation. Strictly above 2500000 and up to the highest table voltage
  5000000 there is a bracketing pair of table points and the offset is the linear
  interpolation between them. Above 5000000 the offset is extrapolated along the last
  segment of the table, from (4000000, -39800) to (5000000, -40100).
\<close>

theorem calc_temp_offset:
  "(supply_uV data \<le> 2500000 \<longrightarrow> sht15_calc_d1 data = - 39400)
   \<and> (2500000 < supply_uV data \<and> supply_uV data \<le> 5000000 \<longrightarrow>
        bracketing temppoints (supply_uV data) \<noteq> None
        \<and> spec_offset (supply_uV data) = Some (sht15_calc_d1 data))
   \<and> (5000000 < supply_uV data \<longrightarrow>
        sht15_calc_d1 data =
          interpolate \<lparr>vdd = 4000000, d1 = - 39800\<rparr> \<lparr>vdd = 5000000, d1 = - 40100\<rparr>
            (supply_uV data))"
proof (intro conjI impI)
  assume "supply_uV data \<le> 2500000"
  then show "sht15_calc_d1 data = - 39400" by (simp add: calc_d1_cases)
next
  assume r: "2500000 < supply_uV data \<and> supply_uV data \<le> 5000000"
  then show "bracketing temppoints (supply_uV data) \<noteq> None"
    by (simp add: temppoints_def)
  consider "supply_uV data \<le> 3000000" | "3000000 < supply_uV data \<and> supply_uV data \<le> 3500000"
    | "3500000 < supply_uV data \<and> supply_uV data \<le> 4000000" | "4000000 < supply_uV data"
    by linarith
  then show "spec_offset (supply_uV data) = Some (sht15_calc_d1 data)"
  proof cases
    case 1
    have "interpolate (temppoints ! 0) (temppoints ! 1) (supply_uV data)
        = linear_offset (temppoints ! 0) (temppoints ! 1) (supply_uV data)"
      using r 1 by (intro interpolate_in_range) (simp_all add: temppoints_def)
    then show ?thesis using r 1
      by (simp add: spec_offset_def calc_d1_cases) (simp add: temppoints_def)
  next
    case 2
    have "interpolate (temppoints ! 1) (temppoints ! 2) (supply_uV data)
        = linear_offset (temppoints ! 1) (temppoints ! 2) (supply_uV data)"
      using r 2 by (intro interpolate_in_range) (simp_all add: temppoints_def)
    then show ?thesis using r 2
      by (simp add: spec_offset_def calc_d1_cases) (simp add: temppoints_def)
  next
    case 3
    have "interpolate (temppoints ! 2) (temppoints ! 3) (supply_uV data)
        = linear_offset (temppoints ! 2) (temppoints ! 3) (supply_uV data)"
      using r 3 by (intro interpolate_in_range) (simp_all add: temppoints_def)
    then show ?thesis using r 3
      by (simp add: spec_offset_def calc_d1_cases) (simp add: temppoints_def)
  next
    case 4
    have "interpolate (temppoints ! 3) (temppoints ! 4) (supply_uV data)
        = linear_offset (temppoints ! 3) (temppoints ! 4) (supply_uV data)"
      using r 4 by (intro interpolate_in_range) (simp_all add: temppoints_def)
    then show ?thesis using r 4
      by (simp add: spec_offset_def calc_d1_cases) (simp add: temppoints_def)
  qed
next
  assume "5000000 < supply_uV data"
  then show "sht15_calc_d1 data =
      interpolate \<lparr>vdd = 4000000, d1 = - 39800\<rparr> \<lparr>vdd = 5000000, d1 = - 40100\<rparr>
        (supply_uV data)"
    by (simp add: calc_d1_cases temppoints_def)
qed

theorem calc_temp_offset_witness:
  "sht15_calc_d1 \<lparr>val_temp = 800, val_humid = 0, val_status = 0, checksum_ok = False, checksumming = False, state = SHT15_READING_NOTHING, measurements_valid = False, status_valid = False, last_measurement = 0, last_status = 0, supply_uV = 2000000, supply_uV_valid = True, interrupt_handled = 0\<rparr> = - 39400
   \<and> spec_offset 3300000 = Some (sht15_calc_d1 \<lparr>val_temp = 800, val_humid = 0, val_status = 0, checksum_ok = False, checksumming = False, state = SHT15_READING_NOTHING, measurements_valid = False, status_valid = False, last_measurement = 0, last_status = 0, supply_uV = 3300000, supply_uV_valid = True, interrupt_handled = 0\<rparr>)
   \<and> sht15_calc_d1 \<lparr>val_temp = 800, val_humid = 0, val_status = 0, checksum_ok = False, checksumming = False, state = SHT15_READING_NOTHING, measurements_valid = False, status_valid = False, last_measurement = 0, last_status = 0, supply_uV = 6000000, supply_uV_valid = True, interrupt_handled = 0\<rparr> = - 40400"
  using calc_temp_offset [of "\<lparr>val_temp = 800, val_humid = 0, val_status = 0, checksum_ok = False, checksumming = False, state = SHT15_READING_NOTHING, measurements_valid = False, status_valid = False, last_measurement = 0, last_status = 0, supply_uV = 2000000, supply_uV_valid = True, interrupt_handled = 0\<rparr>"] calc_temp_offset [of "\<lparr>val_temp = 800, val_humid = 0, val_status = 0, checksum_ok = False, checksumming = False, state = SHT15_READING_NOTHING, measurements_valid = False, status_valid = False, last_measurement = 0, last_status = 0, supply_uV = 3300000, supply_uV_valid = True, interrupt_handled = 0\<rparr>"] calc_temp_offset [of "\<lparr>val_temp = 800, val_humid = 0, val_status = 0, checksum_ok = False, checksumming = False, state = SHT15_READING_NOTHING, measurements_valid = False, status_valid = False, last_measurement = 0, last_status = 0, supply_uV = 6000000, supply_uV_valid = True, interrupt_handled = 0\<rparr>"]
  by (simp add: int_ops s32_def)

section \<open>Bus and protocol: proofs\<close>

lemma emit_fields [simp]:
  "gpio_in (emit e w) = gpio_in w"
  "irq_depth (emit e w) = irq_depth w"
  "work_pending (emit e w) = work_pending w"
  "calls (emit e w) = calls w @ (if is_call e then [e] else [])"
  by (simp_all add: emit_def calls_def)

lemma calls_update [simp]:
  "calls (w\<lparr>gpio_in := g\<rparr>) = calls w"
  "calls (w\<lparr>irq_depth := n\<rparr>) = calls w"
  "calls (w\<lparr>work_pending := p\<rparr>) = calls w"
  by (simp_all add: calls_def)

lemmas line_defs = gpio_direction_output_def gpio_direction_input_def gpio_set_value_def
  ndelay_def dev_err_def wake_up_def

lemma connection_reset_loop_fields [simp]:
  "gpio_in (connection_reset_loop n w) = gpio_in w"
  "irq_depth (connection_reset_loop n w) = irq_depth w"
  "work_pending (connection_reset_loop n w) = work_pending w"
  "calls (connection_reset_loop n w) = calls w"
  by (induction n arbitrary: w; simp add: line_defs)+

lemma connection_reset_fields [simp]:
  "gpio_in (sht15_connection_reset w) = gpio_in w"
  "irq_depth (sht15_connection_reset w) = irq_depth w"
  "work_pending (sht15_connection_reset w) = work_pending w"
  "calls (sht15_connection_reset w) = calls w"
  by (simp_all add: sht15_connection_reset_def line_defs)

lemma send_bit_fields [simp]:
  "gpio_in (sht15_send_bit v w) = gpio_in w"
  "irq_depth (sht15_send_bit v w) = irq_depth w"
  "work_pending (sht15_send_bit v w) = work_pending w"
  "calls (sht15_send_bit v w) = calls w"
  by (simp_all add: sht15_send_bit_def line_defs)

lemma transmission_start_fields [simp]:
  "gpio_in (sht15_transmission_start w) = gpio_in w"
  "irq_depth (sht15_transmission_start w) = irq_depth w"
  "work_pending (sht15_transmission_start w) = work_pending w"
  "calls (sht15_transmission_start w) = calls w"
  by (simp_all add: sht15_transmission_start_def line_defs)

lemma send_byte_loop_fields [simp]:
  "gpio_in (send_byte_loop n b w) = gpio_in w"
  "irq_depth (send_byte_loop n b w) = irq_depth w"
  "work_pending (send_byte_loop n b w) = work_pending w"
  "calls (send_byte_loop n b w) = calls w"
  by (induction n arbitrary: b w; simp)+

lemma send_byte_fields [simp]:
  "gpio_in (sht15_send_byte b w) = gpio_in w"
  "irq_depth (sht15_send_byte b w) = irq_depth w"
  "work_pending (sht15_send_byte b w) = work_pending w"
  "calls (sht15_send_byte b w) = calls w @ [Send_byte b]"
  by (simp_all add: sht15_send_byte_def)

lemma ack_fields [simp]:
  "gpio_in (sht15_ack w) = gpio_in w"
  "irq_depth (sht15_ack w) = irq_depth w"
  "work_pending (sht15_ack w) = work_pending w"
  "calls (sht15_ack w) = calls w"
  by (simp_all add: sht15_ack_def line_defs)

lemma end_transmission_fields [simp]:
  "gpio_in (sht15_end_transmission w) = gpio_in w"
  "irq_depth (sht15_end_transmission w) = irq_depth w"
  "work_pending (sht15_end_transmission w) = work_pending w"
  "calls (sht15_end_transmission w) = calls w"
  by (simp_all add: sht15_end_transmission_def line_defs)

lemma msleep_fields [simp]:
  "gpio_in (msleep n w) = gpio_in w"
  "irq_depth (msleep n w) = irq_depth w"
  "work_pending (msleep n w) = work_pending w"
  "calls (msleep n w) = calls w @ [Msleep n]"
  by (simp_all add: msleep_def)

lemma get_value_fields [simp]:
  "irq_depth (snd (gpio_get_value w)) = irq_depth w"
  "work_pending (snd (gpio_get_value w)) = work_pending w"
  "calls (snd (gpio_get_value w)) = calls w"
  by (simp_all add: gpio_get_value_def split: list.splits)

lemma get_valueD:
  "gpio_get_value w = (v, w') \<Longrightarrow>
     irq_depth w' = irq_depth w \<and> work_pending w' = work_pending w \<and> calls w' = calls w"
  by (auto simp add: gpio_get_value_def split: list.splits)

lemma wait_for_response_fields [simp]:
  "irq_depth (snd (sht15_wait_for_response w)) = irq_depth w"
  "work_pending (snd (sht15_wait_for_response w)) = work_pending w"
  "calls (snd (sht15_wait_for_response w)) = calls w"
proof -
  let ?w = "ndelay SHT15_TSCKH (gpio_set_value Gpio_sck True (gpio_direction_input Gpio_data w))"
  obtain v w' where g: "gpio_get_value ?w = (v, w')" by (cases "gpio_get_value ?w")
  have "irq_depth w' = irq_depth w \<and> work_pending w' = work_pending w \<and> calls w' = calls w"
    using get_valueD [OF g] by (simp add: line_defs)
  then show "irq_depth (snd (sht15_wait_for_response w)) = irq_depth w"
    "work_pending (snd (sht15_wait_for_response w)) = work_pending w"
    "calls (snd (sht15_wait_for_response w)) = calls w"
    using g by (cases v; simp add: sht15_wait_for_response_def Let_def line_defs)+
qed

lemma send_cmd_fields [simp]:
  "irq_depth (snd (sht15_send_cmd c w)) = irq_depth w"
  "work_pending (snd (sht15_send_cmd c w)) = work_pending w"
  "calls (snd (sht15_send_cmd c w)) = calls w @ [Send_cmd c, Send_byte c]"
  by (simp_all add: sht15_send_cmd_def)

lemma read_byte_loopD:
  "read_byte_loop n b w = (r, w') \<Longrightarrow>
     irq_depth w' = irq_depth w \<and> work_pending w' = work_pending w \<and> calls w' = calls w"
proof (induction n arbitrary: b w)
  case 0
  then show ?case by simp
next
  case (Suc n)
  let ?w = "ndelay SHT15_TSCKH (gpio_set_value Gpio_sck True w)"
  obtain v w1 where g: "gpio_get_value ?w = (v, w1)" by (cases "gpio_get_value ?w")
  have f: "irq_depth w1 = irq_depth w \<and> work_pending w1 = work_pending w \<and> calls w1 = calls w"
    using get_valueD [OF g] by (simp add: line_defs)
  have "read_byte_loop n (push_bit 1 b OR (if v then 1 else 0))
        (ndelay SHT15_TSCKL (gpio_set_value Gpio_sck False w1)) = (r, w')"
    using Suc.prems by (simp only: read_byte_loop.simps g prod.case)
  from Suc.IH [OF this] f show ?case by (simp add: line_defs)
qed

lemma read_byte_loop_fields [simp]:
  "irq_depth (snd (read_byte_loop n b w)) = irq_depth w"
  "work_pending (snd (read_byte_loop n b w)) = work_pending w"
  "calls (snd (read_byte_loop n b w)) = calls w"
  using read_byte_loopD [of n b w "fst (read_byte_loop n b w)" "snd (read_byte_loop n b w)"]
  by simp_all

lemma read_byte_fields [simp]:
  "irq_depth (snd (sht15_read_byte w)) = irq_depth w"
  "work_pending (snd (sht15_read_byte w)) = work_pending w"
  "calls (snd (sht15_read_byte w)) = calls w"
  by (simp_all add: sht15_read_byte_def)

lemma send_cmd_result: "fst (sht15_send_cmd c w) = Inl e \<Longrightarrow> e = EIO"
  by (auto simp add: sht15_send_cmd_def sht15_wait_for_response_def Let_def split: prod.splits bool.splits)


lemma send_cmdE:
  obtains (nak) w1 where "sht15_send_cmd c w = (Inl EIO, w1)"
      "calls w1 = calls w @ [Send_cmd c, Send_byte c]"
      "irq_depth w1 = irq_depth w" "work_pending w1 = work_pending w"
  | (ack) w1 where "sht15_send_cmd c w = (Inr (), w1)"
      "calls w1 = calls w @ [Send_cmd c, Send_byte c]"
      "irq_depth w1 = irq_depth w" "work_pending w1 = work_pending w"
proof (cases "sht15_send_cmd c w")
  case (Pair r w1)
  have f: "calls w1 = calls w @ [Send_cmd c, Send_byte c]"
      "irq_depth w1 = irq_depth w" "work_pending w1 = work_pending w"
    using send_cmd_fields [of c w] Pair by simp_all
  show ?thesis
  proof (cases r)
    case (Inl e)
    then have "e = EIO" using Pair send_cmd_result [of c w e] by simp
    then show ?thesis using nak Pair Inl f by simp
  next
    case (Inr u)
    then show ?thesis using ack Pair f by simp
  qed
qed

lemma wait_for_responseE:
  obtains (nak) w1 where "sht15_wait_for_response w = (Inl EIO, w1)"
      "calls w1 = calls w" "irq_depth w1 = irq_depth w" "work_pending w1 = work_pending w"
  | (ack) w1 where "sht15_wait_for_response w = (Inr (), w1)"
      "calls w1 = calls w" "irq_depth w1 = irq_depth w" "work_pending w1 = work_pending w"
proof (cases "sht15_wait_for_response w")
  case (Pair r w1)
  have f: "calls w1 = calls w" "irq_depth w1 = irq_depth w" "work_pending w1 = work_pending w"
    using wait_for_response_fields [of w] Pair by simp_all
  show ?thesis
  proof (cases r)
    case (Inl e)
    then have "e = EIO" using Pair
      by (auto simp add: sht15_wait_for_response_def Let_def split: prod.splits bool.splits)
    then show ?thesis using nak Pair Inl f by simp
  next
    case (Inr u)
    then show ?thesis using ack Pair f by simp
  qed
qed

lemma new_calls_append [simp]: "calls w' = calls w @ evs \<Longrightarrow> new_calls w w' = evs"
  by (simp add: new_calls_def)

lemma new_calls_same [simp]: "calls w' = calls w \<Longrightarrow> new_calls w w' = []"
  by (simp add: new_calls_def)

text \<open>The possible runs of \<open>sht15_soft_reset\<close>.\<close>

lemma soft_resetE:
  obtains (nak) w1 where "sht15_send_cmd SHT15_SOFT_RESET w = (Inl EIO, w1)"
      "sht15_soft_reset (data, w) = (Inl EIO, data, w1)"
      "calls w1 = calls w @ [Send_cmd SHT15_SOFT_RESET, Send_byte SHT15_SOFT_RESET]"
      "irq_depth w1 = irq_depth w" "work_pending w1 = work_pending w"
  | (ack) w1 where "sht15_send_cmd SHT15_SOFT_RESET w = (Inr (), w1)"
      "sht15_soft_reset (data, w) = (Inr (), data\<lparr>val_status := 0\<rparr>, msleep 11 w1)"
      "calls (msleep 11 w1) =
         calls w @ [Send_cmd SHT15_SOFT_RESET, Send_byte SHT15_SOFT_RESET, Msleep 11]"
      "irq_depth w1 = irq_depth w" "work_pending w1 = work_pending w"
proof (cases rule: send_cmdE [of SHT15_SOFT_RESET w])
  case (nak w1)
  then show ?thesis using that(1) [of w1] by (simp add: sht15_soft_reset_def)
next
  case (ack w1)
  then show ?thesis using that(2) [of w1] by (simp add: sht15_soft_reset_def SHT15_TSRST_def)
qed

text \<open>The possible runs of \<open>sht15_send_status\<close>.\<close>

lemma send_statusE:
  obtains (cmd_nak) w1 where "sht15_send_cmd SHT15_WRITE_STATUS w = (Inl EIO, w1)"
      "sht15_send_status status (data, w) = (Inl EIO, data, w1)"
      "calls w1 = calls w @ [Send_cmd SHT15_WRITE_STATUS, Send_byte SHT15_WRITE_STATUS]"
      "irq_depth w1 = irq_depth w" "work_pending w1 = work_pending w"
  | (byte_nak) w1 w2 where "sht15_send_cmd SHT15_WRITE_STATUS w = (Inr (), w1)"
      "sht15_send_status status (data, w) = (Inl EIO, data, w2)"
      "calls w2 = calls w @ [Send_cmd SHT15_WRITE_STATUS, Send_byte SHT15_WRITE_STATUS,
                             Send_byte status]"
      "irq_depth w2 = irq_depth w" "work_pending w2 = work_pending w"
  | (written) w1 w2 where "sht15_send_cmd SHT15_WRITE_STATUS w = (Inr (), w1)"
      "sht15_send_status status (data, w) = (Inr (), data\<lparr>val_status := status\<rparr>, w2)"
      "calls w2 = calls w @ [Send_cmd SHT15_WRITE_STATUS, Send_byte SHT15_WRITE_STATUS,
                             Send_byte status]"
      "irq_depth w2 = irq_depth w" "work_pending w2 = work_pending w"
proof (cases rule: send_cmdE [of SHT15_WRITE_STATUS w])
  case (nak w1)
  then show ?thesis using cmd_nak [of w1] by (simp add: sht15_send_status_def)
next
  case (ack w1)
  let ?w = "sht15_send_byte status (ndelay SHT15_TSU (gpio_direction_output Gpio_data True w1))"
  have c: "calls ?w = calls w @ [Send_cmd SHT15_WRITE_STATUS, Send_byte SHT15_WRITE_STATUS,
                             Send_byte status]"
     "irq_depth ?w = irq_depth w" "work_pending ?w = work_pending w"
    using ack by (simp_all add: line_defs)
  show ?thesis
  proof (cases rule: wait_for_responseE [of ?w])
    case (nak w2)
    then show ?thesis using byte_nak [of w1 w2] ack c by (simp add: sht15_send_status_def)
  next
    case (ack w2)
    then show ?thesis using written [of w1 w2] \<open>sht15_send_cmd SHT15_WRITE_STATUS w = (Inr (), w1)\<close> c
      by (simp add: sht15_send_status_def)
  qed
qed


lemma send_status_error:
  "sht15_send_status status (data, w) = (Inl e, data', w') \<Longrightarrow> e = EIO"
  by (cases rule: send_statusE [of w status data]) simp_all

text \<open>The possible runs of the recovery block.\<close>

lemma checksum_recoveryE:
  obtains (reset_nak) w1 where "sht15_send_cmd SHT15_SOFT_RESET w = (Inl EIO, w1)"
      "checksum_recovery (data, w) = (Inl EIO, data, w1)"
      "calls w1 = calls w @ [Send_cmd SHT15_SOFT_RESET, Send_byte SHT15_SOFT_RESET]"
  | (no_config) w1 where "sht15_send_cmd SHT15_SOFT_RESET w = (Inr (), w1)"
      "val_status data AND 0x07 = 0"
      "checksum_recovery (data, w) = (Inl EAGAIN, data\<lparr>val_status := 0\<rparr>, msleep 11 w1)"
      "calls (msleep 11 w1) =
         calls w @ [Send_cmd SHT15_SOFT_RESET, Send_byte SHT15_SOFT_RESET, Msleep 11]"
  | (write_nak) w1 w2 evs where "sht15_send_cmd SHT15_SOFT_RESET w = (Inr (), w1)"
      "val_status data AND 0x07 \<noteq> 0"
      "checksum_recovery (data, w) = (Inl EIO, data\<lparr>val_status := 0\<rparr>, w2)"
      "calls w2 =
         calls w @ [Send_cmd SHT15_SOFT_RESET, Send_byte SHT15_SOFT_RESET, Msleep 11,
                    Send_cmd SHT15_WRITE_STATUS, Send_byte SHT15_WRITE_STATUS] @ evs"
      "evs = [] \<or> evs = [Send_byte (val_status data AND 0x07)]"
  | (restored) w1 w2 where "sht15_send_cmd SHT15_SOFT_RESET w = (Inr (), w1)"
      "val_status data AND 0x07 \<noteq> 0"
      "checksum_recovery (data, w) =
         (Inl EAGAIN, data\<lparr>val_status := val_status data AND 0x07\<rparr>, w2)"
      "calls w2 =
         calls w @ [Send_cmd SHT15_SOFT_RESET, Send_byte SHT15_SOFT_RESET, Msleep 11,
                    Send_cmd SHT15_WRITE_STATUS, Send_byte SHT15_WRITE_STATUS,
                    Send_byte (val_status data AND 0x07)]"
proof (cases rule: soft_resetE [of w data])
  case (nak w1)
  then show ?thesis using reset_nak [of w1] by (simp add: checksum_recovery_def)
next
  case (ack w1)
  note rst = this
  show ?thesis
  proof (cases "val_status data AND 0x07 = 0")
    case True
    then show ?thesis using no_config [of w1] rst by (simp add: checksum_recovery_def)
  next
    case False
    let ?pc = "val_status data AND 0x07"
    show ?thesis
    proof (cases rule: send_statusE [of "msleep 11 w1" ?pc "data\<lparr>val_status := 0\<rparr>"])
      case (cmd_nak w2)
      then show ?thesis using write_nak [of w1 "dev_err w2" "[]"] rst False
        by (simp add: checksum_recovery_def line_defs)
    next
      case (byte_nak w2 w3)
      then show ?thesis using write_nak [of w1 "dev_err w3" "[Send_byte ?pc]"] rst False
        by (simp add: checksum_recovery_def line_defs)
    next
      case (written w2 w3)
      then show ?thesis using restored [of w1 w3] rst False
        by (simp add: checksum_recovery_def)
    qed
  qed
qed


lemma read_byteE:
  obtains b w1 where "sht15_read_byte w = (b, w1)" "calls w1 = calls w"
    "irq_depth w1 = irq_depth w" "work_pending w1 = work_pending w"
  using read_byte_fields [of w] by (cases "sht15_read_byte w") simp

text \<open>The reply to a read-status command when the checksum does not match.\<close>

lemma update_status_crc_failure:
  assumes stale: "time_after j0 (last_status data + hz) \<or> \<not> status_valid data"
    and chk: "checksumming data"
    and cmd: "sht15_send_cmd SHT15_READ_STATUS w = (Inr (), w1)"
    and rd: "sht15_read_byte w1 = (status, w2)"
    and rc: "sht15_read_byte (sht15_ack w2) = (b, w3)"
    and bad: "sht15_crc8 data [SHT15_READ_STATUS, status] \<noteq> sht15_reverse b"
  shows "sht15_update_status hz j0 j1 (data, w) =
           checksum_recovery (data\<lparr>checksum_ok := False\<rparr>, sht15_end_transmission w3)"
    and "calls (sht15_end_transmission w3) =
           calls w @ [Send_cmd SHT15_READ_STATUS, Send_byte SHT15_READ_STATUS]"
proof -
  show "sht15_update_status hz j0 j1 (data, w) =
           checksum_recovery (data\<lparr>checksum_ok := False\<rparr>, sht15_end_transmission w3)"
    using stale chk cmd rd rc bad by (simp add: sht15_update_status_def)
  have "calls w1 = calls w @ [Send_cmd SHT15_READ_STATUS, Send_byte SHT15_READ_STATUS]"
    using send_cmd_fields(3) [of SHT15_READ_STATUS w] cmd by simp
  moreover have "calls w2 = calls w1"
    using read_byte_fields(3) [of w1] rd by simp
  moreover have "calls w3 = calls w2"
    using read_byte_fields(3) [of "sht15_ack w2"] rc by simp
  ultimately show "calls (sht15_end_transmission w3) =
           calls w @ [Send_cmd SHT15_READ_STATUS, Send_byte SHT15_READ_STATUS]"
    by simp
qed

lemma cmds_of_simps [simp]:
  "cmds_of [] = []"
  "cmds_of (Send_cmd c # evs) = c # cmds_of evs"
  "cmds_of (Send_byte b # evs) = cmds_of evs"
  "cmds_of (Msleep n # evs) = cmds_of evs"
  "cmds_of (Wait_event_timeout n # evs) = cmds_of evs"
  "cmds_of (evs @ evs') = cmds_of evs @ cmds_of evs'"
  by (simp_all add: cmds_of_def)

lemma calls_chain: "calls w1 = calls w @ xs \<Longrightarrow> calls w2 = calls w1 @ ys \<Longrightarrow> calls w2 = calls w @ xs @ ys"
  by simp

text \<open>
  C4, amended. For every status read with checksumming enabled whose computed CRC
  does not match the device checksum, the operation sends exactly one soft-reset
  command, followed by a write-status command if and only if the soft reset was
  acknowledged and the previous mirror masked with 0x07 is non-zero. It returns
  \<open>-EAGAIN\<close> when the recovery succeeds and never returns success. The status byte
  just read is never stored: the mirror ends as the masked previous bits after a
  restore, as 0 after a reset without restore, and unchanged when the reset was not
  acknowledged; \<open>status_valid\<close> and \<open>last_status\<close> stay as they were.
\<close>

theorem status_crc_failure_recovery:
  assumes stale: "time_after j0 (last_status data + hz) \<or> \<not> status_valid data"
    and chk: "checksumming data"
    and cmd: "sht15_send_cmd SHT15_READ_STATUS w = (Inr (), w1)"
    and rd: "sht15_read_byte w1 = (status, w2)"
    and rc: "sht15_read_byte (sht15_ack w2) = (b, w3)"
    and bad: "sht15_crc8 data [SHT15_READ_STATUS, status] \<noteq> sht15_reverse b"
    and rst: "sht15_soft_reset (data\<lparr>checksum_ok := False\<rparr>, sht15_end_transmission w3)
                = (r1, data1, w4)"
    and wr: "sht15_send_status (val_status data AND 0x07) (data1, w4) = (r2, data2, w5)"
    and res: "sht15_update_status hz j0 j1 (data, w) = (r, data', w')"
  shows "cmds_of (new_calls w w') =
           [SHT15_READ_STATUS, SHT15_SOFT_RESET] @
           (if r1 = Inr () \<and> val_status data AND 0x07 \<noteq> 0 then [SHT15_WRITE_STATUS] else [])
    \<and> (r1 = Inr () \<and> (val_status data AND 0x07 = 0 \<or> r2 = Inr ()) \<longrightarrow> r = Inl EAGAIN)
    \<and> r \<noteq> Inr ()
    \<and> val_status data' =
         (if r1 = Inr ()
          then (if val_status data AND 0x07 \<noteq> 0 \<and> r2 = Inr ()
                then val_status data AND 0x07 else 0)
          else val_status data)
    \<and> status_valid data' = status_valid data
    \<and> last_status data' = last_status data"
proof -
  let ?d = "data\<lparr>checksum_ok := False\<rparr>" and ?w = "sht15_end_transmission w3"
  note path = update_status_crc_failure(1) [OF stale chk cmd rd rc bad]
    update_status_crc_failure(2) [OF stale chk cmd rd rc bad]
  have rec: "checksum_recovery (?d, ?w) = (r, data', w')"
    using path(1) res by simp
  have pc: "val_status ?d AND 0x07 = val_status data AND 0x07" by simp
  show ?thesis
  proof (cases rule: checksum_recoveryE [of ?w ?d])
    case (reset_nak v1)
    have r1: "r1 = Inl EIO"
      using reset_nak(1) rst by (simp add: sht15_soft_reset_def)
    have out: "r = Inl EIO" "data' = ?d" "w' = v1"
      using reset_nak(2) rec by simp_all
    have "calls w' = calls w @ [Send_cmd SHT15_READ_STATUS, Send_byte SHT15_READ_STATUS]
        @ [Send_cmd SHT15_SOFT_RESET, Send_byte SHT15_SOFT_RESET]"
      unfolding out using path(2) reset_nak(3) by (rule calls_chain)
    then have nc: "new_calls w w' = [Send_cmd SHT15_READ_STATUS, Send_byte SHT15_READ_STATUS]
        @ [Send_cmd SHT15_SOFT_RESET, Send_byte SHT15_SOFT_RESET]"
      by (rule new_calls_append)
    show ?thesis unfolding nc by (simp add: r1 out)
  next
    case (no_config v1)
    have r1: "r1 = Inr ()"
      using no_config(1) rst by (simp add: sht15_soft_reset_def)
    have out: "r = Inl EAGAIN" "data' = ?d\<lparr>val_status := 0\<rparr>" "w' = msleep 11 v1"
      using no_config(3) rec by simp_all
    have "calls w' = calls w @ [Send_cmd SHT15_READ_STATUS, Send_byte SHT15_READ_STATUS]
        @ [Send_cmd SHT15_SOFT_RESET, Send_byte SHT15_SOFT_RESET, Msleep 11]"
      unfolding out using path(2) no_config(4) by (rule calls_chain)
    then have nc: "new_calls w w' = [Send_cmd SHT15_READ_STATUS, Send_byte SHT15_READ_STATUS]
        @ [Send_cmd SHT15_SOFT_RESET, Send_byte SHT15_SOFT_RESET, Msleep 11]"
      by (rule new_calls_append)
    have pc0: "val_status data AND 0x07 = 0" using no_config(2) by simp
    show ?thesis unfolding nc by (simp add: r1 out pc0)
  next
    case (write_nak v1 v2 evs)
    have r1: "r1 = Inr ()" "data1 = ?d\<lparr>val_status := 0\<rparr>" "w4 = msleep 11 v1"
      using write_nak(1) rst by (simp_all add: sht15_soft_reset_def SHT15_TSRST_def)
    have pc: "val_status data AND 0x07 \<noteq> 0" using write_nak(2) by simp
    have "checksum_recovery (?d, ?w) =
        (case sht15_send_status (val_status data AND 0x07) (data1, w4) of
           (Inl e, d, w) \<Rightarrow> (Inl e, d, dev_err w) | (Inr u, d, w) \<Rightarrow> (Inl EAGAIN, d, w))"
      using pc rst r1(1) by (simp add: checksum_recovery_def)
    then have r2: "r2 = Inl EIO"
      using wr write_nak(3) by (cases r2) auto
    have out: "r = Inl EIO" "data' = ?d\<lparr>val_status := 0\<rparr>" "w' = v2"
      using write_nak(3) rec by simp_all
    have "calls w' = calls w @ [Send_cmd SHT15_READ_STATUS, Send_byte SHT15_READ_STATUS]
        @ ([Send_cmd SHT15_SOFT_RESET, Send_byte SHT15_SOFT_RESET, Msleep 11,
                    Send_cmd SHT15_WRITE_STATUS, Send_byte SHT15_WRITE_STATUS] @ evs)"
      unfolding out using path(2) write_nak(4) by (rule calls_chain)
    then have nc: "new_calls w w' = [Send_cmd SHT15_READ_STATUS, Send_byte SHT15_READ_STATUS]
        @ ([Send_cmd SHT15_SOFT_RESET, Send_byte SHT15_SOFT_RESET, Msleep 11,
                    Send_cmd SHT15_WRITE_STATUS, Send_byte SHT15_WRITE_STATUS] @ evs)"
      by (rule new_calls_append)
    have "cmds_of evs = []" using write_nak(5) by auto
    then show ?thesis unfolding nc by (simp add: r1 r2 out pc)
  next
    case (restored v1 v2)
    have r1: "r1 = Inr ()" "data1 = ?d\<lparr>val_status := 0\<rparr>" "w4 = msleep 11 v1"
      using restored(1) rst by (simp_all add: sht15_soft_reset_def SHT15_TSRST_def)
    have pc: "val_status data AND 0x07 \<noteq> 0" using restored(2) by simp
    have "checksum_recovery (?d, ?w) =
        (case sht15_send_status (val_status data AND 0x07) (data1, w4) of
           (Inl e, d, w) \<Rightarrow> (Inl e, d, dev_err w) | (Inr u, d, w) \<Rightarrow> (Inl EAGAIN, d, w))"
      using pc rst r1(1) by (simp add: checksum_recovery_def)
    then have r2: "r2 = Inr ()"
      using wr restored(3) send_status_error [of "val_status data AND 0x07" data1 w4 _ data2 w5]
      by (cases r2) auto
    have out: "r = Inl EAGAIN" "data' = ?d\<lparr>val_status := val_status data AND 0x07\<rparr>" "w' = v2"
      using restored(3) rec by simp_all
    have "calls w' = calls w @ [Send_cmd SHT15_READ_STATUS, Send_byte SHT15_READ_STATUS]
        @ [Send_cmd SHT15_SOFT_RESET, Send_byte SHT15_SOFT_RESET, Msleep 11,
                    Send_cmd SHT15_WRITE_STATUS, Send_byte SHT15_WRITE_STATUS,
                    Send_byte (val_status ?d AND 0x07)]"
      unfolding out using path(2) restored(4) by (rule calls_chain)
    then have nc: "new_calls w w' = [Send_cmd SHT15_READ_STATUS, Send_byte SHT15_READ_STATUS]
        @ [Send_cmd SHT15_SOFT_RESET, Send_byte SHT15_SOFT_RESET, Msleep 11,
                    Send_cmd SHT15_WRITE_STATUS, Send_byte SHT15_WRITE_STATUS,
                    Send_byte (val_status ?d AND 0x07)]"
      by (rule new_calls_append)
    show ?thesis unfolding nc by (simp add: r1 r2 out pc)
  qed
qed


lemma same_settings_refl [simp]: "same_settings d d"
  by (simp add: same_settings_def)

lemma same_settings_trans: "same_settings a b \<Longrightarrow> same_settings b c \<Longrightarrow> same_settings a c"
  by (simp add: same_settings_def)

lemma same_settings_updates [simp]:
  "same_settings d (d'\<lparr>interrupt_handled := i\<rparr>) = same_settings d d'"
  "same_settings d (d'\<lparr>state := s\<rparr>) = same_settings d d'"
  "same_settings d (d'\<lparr>checksum_ok := c\<rparr>) = same_settings d d'"
  "same_settings d (d'\<lparr>val_temp := t\<rparr>) = same_settings d d'"
  "same_settings d (d'\<lparr>val_humid := h\<rparr>) = same_settings d d'"
  "same_settings (d\<lparr>interrupt_handled := i\<rparr>) d' = same_settings d d'"
  "same_settings (d\<lparr>state := s\<rparr>) d' = same_settings d d'"
  by (simp_all add: same_settings_def)

lemma schedule_irq_fields [simp]:
  "calls (enable_irq w) = calls w" "calls (disable_irq_nosync w) = calls w"
  "calls (schedule_work w) = calls w"
  "work_pending (enable_irq w) = work_pending w"
  "work_pending (disable_irq_nosync w) = work_pending w"
  "irq_depth (schedule_work w) = irq_depth w"
  by (simp_all add: enable_irq_def disable_irq_nosync_def schedule_work_def)

lemma interrupt_firedD:
  "sht15_interrupt_fired (d, w) = (d', w') \<Longrightarrow>
     same_settings d d' \<and> state d' = state d \<and> calls w' = calls w"
  by (auto simp add: sht15_interrupt_fired_def Let_def split: if_splits)

lemma irq_windowD:
  "irq_window edge (d, w) = (d', w') \<Longrightarrow>
     same_settings d d' \<and> state d' = state d \<and> calls w' = calls w"
  by (auto simp add: irq_window_def dest: interrupt_firedD split: if_splits)

lemma irq_window_no_edge [simp]: "irq_window False s = s"
  by (simp add: irq_window_def)

lemma bh_read_valuesD:
  assumes "bh_read_values (d, w) = (d', w')"
  shows "same_settings d d' \<and> state d' = SHT15_READING_NOTHING \<and> calls w' = calls w"
proof -
  obtain hi w1 where 1: "sht15_read_byte w = (hi, w1)" "calls w1 = calls w"
    by (rule read_byteE [of w]) auto
  obtain lo w2 where 2: "sht15_read_byte (sht15_ack w1) = (lo, w2)" "calls w2 = calls w1"
    by (rule read_byteE [of "sht15_ack w1"]) auto
  obtain b w3 where 3: "sht15_read_byte (sht15_ack w2) = (b, w3)" "calls w3 = calls w2"
    by (rule read_byteE [of "sht15_ack w2"]) auto
  show ?thesis
    using assms 1 2 3
    by (cases "state d"; cases "checksumming d")
       (auto simp add: bh_read_values_def Let_def line_defs)
qed

lemma bh_read_dataD:
  assumes "sht15_bh_read_data edge (d, w) = (d', w')"
  shows "same_settings d d' \<and> calls w' = calls w"
proof -
  obtain v w1 where g1: "gpio_get_value w = (v, w1)" by (cases "gpio_get_value w")
  note f1 = get_valueD [OF g1]
  show ?thesis
  proof (cases v)
    case False
    then have "bh_read_values (d, w1) = (d', w')"
      using assms g1 by (simp add: sht15_bh_read_data_def)
    from bh_read_valuesD [OF this] f1 show ?thesis by simp
  next
    case True
    obtain d2 w2 where iw: "irq_window edge (d\<lparr>interrupt_handled := 0\<rparr>, enable_irq w1) = (d2, w2)"
      by (cases "irq_window edge (d\<lparr>interrupt_handled := 0\<rparr>, enable_irq w1)")
    note f2 = irq_windowD [OF iw]
    obtain v2 w3 where g2: "gpio_get_value w2 = (v2, w3)" by (cases "gpio_get_value w2")
    note f3 = get_valueD [OF g2]
    show ?thesis
    proof (cases "v2 \<or> interrupt_handled d2 \<noteq> 0")
      case True
      then have "(d', w') = (d2, w3)"
        using assms g1 \<open>v\<close> iw g2 by (simp add: sht15_bh_read_data_def)
      then show ?thesis using f1 f2 f3 by simp
    next
      case False
      then have "bh_read_values (d2, w3) = (d', w')"
        using assms g1 \<open>v\<close> iw g2 by (simp add: sht15_bh_read_data_def)
      from bh_read_valuesD [OF this] f1 f2 f3 show ?thesis
        by (auto intro: same_settings_trans)
    qed
  qed
qed

lemma wait_loopD:
  "wait_loop sched (d, w) = (r, d', w') \<Longrightarrow>
     same_settings d d' \<and> calls w' = calls w \<and> (r = 0 \<longleftrightarrow> state d' \<noteq> SHT15_READING_NOTHING)"
proof (induction sched arbitrary: d w)
  case Nil
  then show ?case by (auto split: if_splits)
next
  case (Cons e es)
  show ?case
  proof (cases "state d = SHT15_READING_NOTHING")
    case True
    then show ?thesis using Cons.prems by auto
  next
    case False
    note busy = this
    show ?thesis
    proof (cases e)
      case Irq_edge
      obtain d1 w1 where iw: "irq_window True (d, w) = (d1, w1)"
        by (cases "irq_window True (d, w)")
      have "wait_loop es (d1, w1) = (r, d', w')"
        using Cons.prems busy Irq_edge iw by simp
      from Cons.IH [OF this] irq_windowD [OF iw] show ?thesis
        by (auto intro: same_settings_trans)
    next
      case (Work_runs edge)
      show ?thesis
      proof (cases "work_pending w")
        case True
        obtain d1 w1 where bh: "sht15_bh_read_data edge (d, w\<lparr>work_pending := False\<rparr>) = (d1, w1)"
          by (cases "sht15_bh_read_data edge (d, w\<lparr>work_pending := False\<rparr>)")
        have "wait_loop es (d1, w1) = (r, d', w')"
          using Cons.prems busy Work_runs True bh by simp
        from Cons.IH [OF this] bh_read_dataD [OF bh] show ?thesis
          by (auto intro: same_settings_trans)
      next
        case False
        then have "wait_loop es (d, w) = (r, d', w')"
          using Cons.prems busy Work_runs by simp
        from Cons.IH [OF this] show ?thesis .
      qed
    qed
  qed
qed

text \<open>Nothing happens during a wait in which no edge arrives and no work is pending.\<close>

lemma wait_loop_idle:
  "state d \<noteq> SHT15_READING_NOTHING \<Longrightarrow> \<not> work_pending w \<Longrightarrow> Irq_edge \<notin> set sched \<Longrightarrow>
     wait_loop sched (d, w) = (0, d, w)"
proof (induction sched)
  case Nil
  then show ?case by simp
next
  case (Cons e es)
  then show ?case by (cases e) auto
qed

lemma wait_event_timeoutD:
  "wait_event_timeout sched t (d, w) = (r, d', w') \<Longrightarrow>
     same_settings d d' \<and> calls w' = calls w @ [Wait_event_timeout t]
     \<and> (r = 0 \<longleftrightarrow> state d' \<noteq> SHT15_READING_NOTHING)"
  using wait_loopD [of sched d "emit (Wait_event_timeout t) w" r d' w']
  by (simp add: wait_event_timeout_def)


text \<open>The possible runs of \<open>sht15_measurement\<close>.\<close>

lemma measurementE:
  obtains (cmd_nak) w1 where "sht15_send_cmd c w = (Inl EIO, w1)"
      "sht15_measurement env c t (d, w) = (Inl EIO, d, w1)"
      "calls w1 = calls w @ [Send_cmd c, Send_byte c]"
  | (timeout) d1 w1 where
      "sht15_measurement env c t (d, w) = (Inl ETIME, d1, w1)"
      "same_settings d d1" "state d1 \<noteq> SHT15_READING_NOTHING"
      "calls w1 = calls w @ [Send_cmd c, Send_byte c, Wait_event_timeout t]"
  | (crc_failure) d1 w1 where
      "sht15_measurement env c t (d, w) = checksum_recovery (d1, w1)"
      "same_settings d d1" "state d1 = SHT15_READING_NOTHING"
      "checksumming d1" "\<not> checksum_ok d1"
      "calls w1 = calls w @ [Send_cmd c, Send_byte c, Wait_event_timeout t]"
  | (complete) d1 w1 where
      "sht15_measurement env c t (d, w) = (Inr (), d1, w1)"
      "same_settings d d1" "state d1 = SHT15_READING_NOTHING"
      "calls w1 = calls w @ [Send_cmd c, Send_byte c, Wait_event_timeout t]"
proof (cases rule: send_cmdE [of c w])
  case (nak w1)
  then show ?thesis using cmd_nak [of w1] by (simp add: sht15_measurement_def)
next
  case (ack w1)
  let ?s = "(d\<lparr>interrupt_handled := 0\<rparr>, enable_irq (gpio_direction_input Gpio_data w1))"
  obtain d2 w2 where iw: "irq_window (irq_on_enable env) ?s = (d2, w2)"
    by (cases "irq_window (irq_on_enable env) ?s")
  note f2 = irq_windowD [OF iw]
  obtain v w3 where g: "gpio_get_value w2 = (v, w3)" by (cases "gpio_get_value w2")
  note f3 = get_valueD [OF g]
  let ?w4 = "if \<not> v then (let w = disable_irq_nosync w3
                           in if interrupt_handled d2 = 0 then schedule_work w else w)
             else w3"
  have c4: "calls ?w4 = calls w @ [Send_cmd c, Send_byte c]"
    using ack(2) f2 f3 by (simp add: Let_def line_defs)
  obtain r d5 w5 where wt: "wait_event_timeout (wait_sched env) t (d2, ?w4) = (r, d5, w5)"
    by (cases "wait_event_timeout (wait_sched env) t (d2, ?w4)")
  note f5 = wait_event_timeoutD [OF wt]
  have ss: "same_settings d d5"
    using f2 f5 by (auto intro: same_settings_trans)
  have c5: "calls w5 = calls w @ [Send_cmd c, Send_byte c, Wait_event_timeout t]"
    using f5 c4 by simp
  have run: "sht15_measurement env c t (d, w) =
      (if r = 0 then (Inl ETIME, d5, sht15_connection_reset (disable_irq_nosync w5))
       else if checksumming d5 \<and> \<not> checksum_ok d5 then checksum_recovery (d5, w5)
       else (Inr (), d5, w5))"
    using ack(1) iw g wt by (simp add: sht15_measurement_def Let_def)
  show ?thesis
  proof (cases "r = 0")
    case True
    then show ?thesis
      using timeout [of d5 "sht15_connection_reset (disable_irq_nosync w5)"] run ss f5 c5
      by simp
  next
    case False
    then show ?thesis
      using crc_failure [of d5 w5] complete [of d5 w5] run ss f5 c5
      by (cases "checksumming d5 \<and> \<not> checksum_ok d5") auto
  qed
qed

lemma get_value_trace: "gpio_get_value w = (v, w') \<Longrightarrow> trace w' = trace w"
  by (auto simp add: gpio_get_value_def split: list.splits)

lemma connection_reset_loop_trace:
  "trace (connection_reset_loop n w) =
     trace w @ concat (replicate n
       [Gpio_set_value Gpio_sck True, Ndelay 100,
        Gpio_set_value Gpio_sck False, Ndelay 100])"
  by (induction n arbitrary: w)
     (simp_all add: line_defs emit_def SHT15_TSCKH_def SHT15_TSCKL_def)

lemma connection_reset_trace:
  "trace (sht15_connection_reset w) = trace w @ connection_reset_events"
  by (simp add: sht15_connection_reset_def connection_reset_loop_trace
        connection_reset_events_def line_defs emit_def SHT15_TSCKL_def)

text \<open>
  C3, amended. For every measurement command that is acknowledged while a reading is
  pending, whose completion signal never fires and for which no read work runs, the
  call returns \<open>-ETIME\<close> once the wait has expired, after disabling the interrupt
  (the last events of the trace are the wait, \<^verbatim>\<open>disable_irq_nosync\<close> and the line
  events of a connection reset, and the interrupt ends disabled). \<open>data->state\<close> is
  left at the reading state it had, not at \<open>SHT15_READING_NOTHING\<close>. The next refresh
  is not blocked all the same: \<open>sht15_update_measurements\<close> sets the state before
  each command, so it runs as it would from the idle state.
\<close>

theorem measurement_timeout:
  assumes cmd: "sht15_send_cmd command w = (Inr (), w1)"
    and busy: "state data \<noteq> SHT15_READING_NOTHING"
    and no_early: "\<not> irq_on_enable env"
    and line_high: "fst (gpio_get_value (enable_irq (gpio_direction_input Gpio_data w1)))"
    and no_irq: "Irq_edge \<notin> set (wait_sched env)"
    and no_work: "\<not> work_pending w"
    and res: "sht15_measurement env command timeout_msecs (data, w) = (r, data', w')"
  shows "r = Inl ETIME
    \<and> data' = data\<lparr>interrupt_handled := 0\<rparr>
    \<and> state data' = state data
    \<and> state data' \<noteq> SHT15_READING_NOTHING
    \<and> new_calls w w' =
        [Send_cmd command, Send_byte command, Wait_event_timeout timeout_msecs]
    \<and> trace w' =
        trace w1 @ [Gpio_direction_input Gpio_data, Enable_irq,
                    Wait_event_timeout timeout_msecs, Disable_irq_nosync]
        @ connection_reset_events
    \<and> irq_depth w' = (if irq_depth w = 0 then 1 else irq_depth w)
    \<and> 0 < irq_depth w'
    \<and> \<not> work_pending w'
    \<and> (time_after j0 (last_measurement data' + hz) \<or> \<not> measurements_valid data' \<longrightarrow>
        sht15_update_measurements hz j0 j1 env_humid env_temp (data', w') =
        sht15_update_measurements hz j0 j1 env_humid env_temp
          (data'\<lparr>state := SHT15_READING_NOTHING\<rparr>, w'))"
proof -
  let ?w2 = "enable_irq (gpio_direction_input Gpio_data w1)"
  obtain v w3 where g: "gpio_get_value ?w2 = (v, w3)" by (cases "gpio_get_value ?w2")
  then have v: "v" using line_high by simp
  have wp: "work_pending w3 = work_pending w"
    using get_valueD [OF g] send_cmd_fields(2) [of command w] cmd by (simp add: line_defs)
  have cw: "calls w3 = calls w @ [Send_cmd command, Send_byte command]"
    using get_valueD [OF g] send_cmd_fields(3) [of command w] cmd by (simp add: line_defs)
  have tw: "trace w3 = trace w1 @ [Gpio_direction_input Gpio_data, Enable_irq]"
    using get_value_trace [OF g] by (simp add: enable_irq_def line_defs emit_def)
  have dw: "irq_depth w3 = (if irq_depth w = 0 then 0 else irq_depth w - 1)"
    using get_valueD [OF g] send_cmd_fields(1) [of command w] cmd
    by (simp add: enable_irq_def line_defs emit_def)
  let ?d = "data\<lparr>interrupt_handled := 0\<rparr>"
  have idle: "wait_loop (wait_sched env) (?d, emit (Wait_event_timeout timeout_msecs) w3) =
      (0, ?d, emit (Wait_event_timeout timeout_msecs) w3)"
    using busy no_work no_irq wp by (intro wait_loop_idle) simp_all
  have run: "sht15_measurement env command timeout_msecs (data, w) =
      (Inl ETIME, ?d, sht15_connection_reset
         (disable_irq_nosync (emit (Wait_event_timeout timeout_msecs) w3)))"
    using cmd no_early g v idle
    by (simp add: sht15_measurement_def wait_event_timeout_def)
  then have out: "r = Inl ETIME" "data' = ?d"
    "w' = sht15_connection_reset (disable_irq_nosync (emit (Wait_event_timeout timeout_msecs) w3))"
    using res by simp_all
  have "calls w' = calls w @ [Send_cmd command, Send_byte command,
      Wait_event_timeout timeout_msecs]"
    unfolding out using cw by simp
  then have nc: "new_calls w w' =
      [Send_cmd command, Send_byte command, Wait_event_timeout timeout_msecs]"
    by (rule new_calls_append)
  have tr: "trace w' =
        trace w1 @ [Gpio_direction_input Gpio_data, Enable_irq,
                    Wait_event_timeout timeout_msecs, Disable_irq_nosync]
        @ connection_reset_events"
    unfolding out(3) connection_reset_trace
    using tw by (simp add: disable_irq_nosync_def emit_def)
  have dp: "irq_depth w' = (if irq_depth w = 0 then 1 else irq_depth w)"
    unfolding out(3) using dw by (simp add: disable_irq_nosync_def)
  have pw: "\<not> work_pending w'"
    unfolding out(3) using wp no_work by simp
  show ?thesis
    using busy nc tr dp pw out(1,2) by (simp add: sht15_update_measurements_def)
qed

lemma cmd_distinct [simp]:
  "SHT15_SOFT_RESET \<noteq> SHT15_MEASURE_RH" "SHT15_SOFT_RESET \<noteq> SHT15_MEASURE_TEMP"
  "SHT15_WRITE_STATUS \<noteq> SHT15_MEASURE_RH" "SHT15_WRITE_STATUS \<noteq> SHT15_MEASURE_TEMP"
  "SHT15_MEASURE_RH \<noteq> SHT15_MEASURE_TEMP" "SHT15_MEASURE_TEMP \<noteq> SHT15_MEASURE_RH"
  "SHT15_SOFT_RESET \<noteq> SHT15_READ_STATUS" "SHT15_WRITE_STATUS \<noteq> SHT15_READ_STATUS"
  "SHT15_READ_STATUS \<noteq> SHT15_SOFT_RESET" "SHT15_READ_STATUS \<noteq> SHT15_WRITE_STATUS"
  "SHT15_SOFT_RESET \<noteq> SHT15_WRITE_STATUS" "SHT15_WRITE_STATUS \<noteq> SHT15_SOFT_RESET"
  by (simp_all add: SHT15_SOFT_RESET_def SHT15_MEASURE_RH_def SHT15_MEASURE_TEMP_def
        SHT15_WRITE_STATUS_def SHT15_READ_STATUS_def)

lemma recovery_calls_facts:
  assumes "rc \<in> recovery_calls pc"
  shows "filter is_measurement_step rc = []"
    and "set (data_bytes rc) \<subseteq> {pc}"
    and "cmds_of rc = [SHT15_SOFT_RESET] \<or> cmds_of rc = [SHT15_SOFT_RESET, SHT15_WRITE_STATUS]"
  using assms by (auto simp add: recovery_calls_def data_bytes_def)

text \<open>What a run of the recovery block does, in one statement.\<close>

lemma checksum_recovery_summary:
  assumes "checksum_recovery (d, w) = (r, d', w')"
  shows "\<exists>rc \<in> recovery_calls (val_status d AND 0x07). calls w' = calls w @ rc"
    and "r = Inl EIO \<or> r = Inl EAGAIN"
    and "r = Inl EAGAIN \<longrightarrow> val_status d' = val_status d AND 0x07"
    and "\<exists>x. d' = d\<lparr>val_status := x\<rparr>"
proof -
  have "(\<exists>rc \<in> recovery_calls (val_status d AND 0x07). calls w' = calls w @ rc)
      \<and> (r = Inl EIO \<or> r = Inl EAGAIN)
      \<and> (r = Inl EAGAIN \<longrightarrow> val_status d' = val_status d AND 0x07)
      \<and> (\<exists>x. d' = d\<lparr>val_status := x\<rparr>)"
  proof (cases rule: checksum_recoveryE [of w d])
    case (reset_nak w1)
    have "d = d\<lparr>val_status := val_status d\<rparr>" by simp
    then have "\<exists>x. d = d\<lparr>val_status := x\<rparr>" by (rule exI)
    then show ?thesis using reset_nak assms by (auto simp add: recovery_calls_def)
  next
    case (no_config w1)
    then show ?thesis using assms by (auto simp add: recovery_calls_def data_bytes_def)
  next
    case (write_nak w1 w2 evs)
    then show ?thesis using assms by (auto simp add: recovery_calls_def data_bytes_def)
  next
    case (restored w1 w2)
    then show ?thesis using assms by (auto simp add: recovery_calls_def data_bytes_def)
  qed
  then show "\<exists>rc \<in> recovery_calls (val_status d AND 0x07). calls w' = calls w @ rc"
    and "r = Inl EIO \<or> r = Inl EAGAIN"
    and "r = Inl EAGAIN \<longrightarrow> val_status d' = val_status d AND 0x07"
    and "\<exists>x. d' = d\<lparr>val_status := x\<rparr>"
    by blast+
qed

text \<open>The possible runs of \<open>sht15_update_status\<close>.\<close>

lemma update_statusE:
  obtains (fresh) "status_valid data" "\<not> time_after j0 (last_status data + hz)"
      "sht15_update_status hz j0 j1 (data, w) = (Inr (), data, w)"
  | (cmd_nak) w1 where "time_after j0 (last_status data + hz) \<or> \<not> status_valid data"
      "sht15_update_status hz j0 j1 (data, w) = (Inl EIO, data, w1)"
      "calls w1 = calls w @ [Send_cmd SHT15_READ_STATUS, Send_byte SHT15_READ_STATUS]"
  | (stored) status ok w1 where "time_after j0 (last_status data + hz) \<or> \<not> status_valid data"
      "sht15_update_status hz j0 j1 (data, w) =
         (Inr (), data\<lparr>checksum_ok := ok, val_status := status, status_valid := True,
                        last_status := j1\<rparr>, w1)"
      "calls w1 = calls w @ [Send_cmd SHT15_READ_STATUS, Send_byte SHT15_READ_STATUS]"
  | (crc_failure) w1 where "time_after j0 (last_status data + hz) \<or> \<not> status_valid data"
      "checksumming data"
      "sht15_update_status hz j0 j1 (data, w) =
         checksum_recovery (data\<lparr>checksum_ok := False\<rparr>, w1)"
      "calls w1 = calls w @ [Send_cmd SHT15_READ_STATUS, Send_byte SHT15_READ_STATUS]"
proof (cases "time_after j0 (last_status data + hz) \<or> \<not> status_valid data")
  case False
  then show ?thesis using fresh by (simp add: sht15_update_status_def)
next
  case True
  note stale = this
  show ?thesis
  proof (cases rule: send_cmdE [of SHT15_READ_STATUS w])
    case (nak w1)
    then show ?thesis using cmd_nak [of w1] stale by (simp add: sht15_update_status_def)
  next
    case (ack w1)
    obtain status w2 where rd: "sht15_read_byte w1 = (status, w2)" "calls w2 = calls w1"
      by (rule read_byteE [of w1]) auto
    show ?thesis
    proof (cases "checksumming data")
      case False
      have "sht15_update_status hz j0 j1 (data, w) =
          (Inr (), data\<lparr>val_status := status, status_valid := True, last_status := j1\<rparr>,
           sht15_end_transmission w2)"
        using stale ack(1) rd(1) False by (simp add: sht15_update_status_def)
      then have "sht15_update_status hz j0 j1 (data, w) =
          (Inr (), data\<lparr>checksum_ok := checksum_ok data, val_status := status,
             status_valid := True, last_status := j1\<rparr>, sht15_end_transmission w2)"
        by simp
      then show ?thesis using stored [of status "checksum_ok data" "sht15_end_transmission w2"]
          stale ack(2) rd(2) by simp
    next
      case True
      obtain b w3 where rc: "sht15_read_byte (sht15_ack w2) = (b, w3)" "calls w3 = calls (sht15_ack w2)"
        by (rule read_byteE [of "sht15_ack w2"]) auto
      have c3: "calls (sht15_end_transmission w3) =
          calls w @ [Send_cmd SHT15_READ_STATUS, Send_byte SHT15_READ_STATUS]"
        using ack(2) rd(2) rc(2) by simp
      show ?thesis
      proof (cases "sht15_crc8 data [SHT15_READ_STATUS, status] = sht15_reverse b")
        case False
        from update_status_crc_failure(1) [OF stale True ack(1) rd(1) rc(1) False]
        show ?thesis using crc_failure [of "sht15_end_transmission w3"] stale True c3 by simp
      next
        case ok: True
        have "sht15_update_status hz j0 j1 (data, w) =
          (Inr (), data\<lparr>checksum_ok := True, val_status := status,
             status_valid := True, last_status := j1\<rparr>, sht15_end_transmission w3)"
          using stale ack(1) rd(1) rc(1) True ok by (simp add: sht15_update_status_def)
        then show ?thesis using stored [of status True "sht15_end_transmission w3"] stale c3
          by simp
      qed
    qed
  qed
qed


text \<open>What a run of \<open>sht15_measurement\<close> does, in one statement.\<close>

lemma measurement_summary:
  assumes "sht15_measurement env c t (d, w) = (r, d', w')"
  shows "\<exists>evs. calls w' = calls w @ Send_cmd c # Send_byte c # evs
          \<and> (evs = [] \<and> r = Inl EIO
              \<or> evs = [Wait_event_timeout t] \<and> r = Inl ETIME
              \<or> evs = [Wait_event_timeout t] \<and> r = Inr () \<and> state d' = SHT15_READING_NOTHING
              \<or> (\<exists>rc \<in> recovery_calls (val_status d AND 0x07).
                    evs = Wait_event_timeout t # rc \<and> (r = Inl EIO \<or> r = Inl EAGAIN)))"
    and "same_settings (d\<lparr>val_status := val_status d'\<rparr>) d'"
    and "r = Inl EAGAIN \<longrightarrow> val_status d' = val_status d AND 0x07"
    and "r = Inr () \<longrightarrow> same_settings d d'"
proof -
  have "(\<exists>evs. calls w' = calls w @ Send_cmd c # Send_byte c # evs
          \<and> (evs = [] \<and> r = Inl EIO
              \<or> evs = [Wait_event_timeout t] \<and> r = Inl ETIME
              \<or> evs = [Wait_event_timeout t] \<and> r = Inr () \<and> state d' = SHT15_READING_NOTHING
              \<or> (\<exists>rc \<in> recovery_calls (val_status d AND 0x07).
                    evs = Wait_event_timeout t # rc \<and> (r = Inl EIO \<or> r = Inl EAGAIN))))
     \<and> same_settings (d\<lparr>val_status := val_status d'\<rparr>) d'
     \<and> (r = Inl EAGAIN \<longrightarrow> val_status d' = val_status d AND 0x07)
     \<and> (r = Inr () \<longrightarrow> same_settings d d')"
  proof (cases rule: measurementE [of c w env t d])
    case (cmd_nak w1)
    then show ?thesis using assms by (auto simp add: same_settings_def)
  next
    case (timeout d1 w1)
    then show ?thesis using assms by (auto simp add: same_settings_def)
  next
    case (complete d1 w1)
    then show ?thesis using assms by (auto simp add: same_settings_def)
  next
    case (crc_failure d1 w1)
    then have rec: "checksum_recovery (d1, w1) = (r, d', w')" using assms by simp
    have vs: "val_status d1 = val_status d" using crc_failure(2) by (simp add: same_settings_def)
    obtain rc where rc: "rc \<in> recovery_calls (val_status d AND 0x07)" "calls w' = calls w1 @ rc"
      using checksum_recovery_summary(1) [OF rec] vs by auto
    obtain x where x: "d' = d1\<lparr>val_status := x\<rparr>"
      using checksum_recovery_summary(4) [OF rec] by auto
    have "calls w' = calls w @ Send_cmd c # Send_byte c # Wait_event_timeout t # rc"
      using rc(2) crc_failure(6) by simp
    moreover have "same_settings (d\<lparr>val_status := val_status d'\<rparr>) d'"
      using x crc_failure(2) by (simp add: same_settings_def)
    ultimately show ?thesis
      using rc(1) checksum_recovery_summary(2,3) [OF rec] vs by auto
  qed
  then show "\<exists>evs. calls w' = calls w @ Send_cmd c # Send_byte c # evs
          \<and> (evs = [] \<and> r = Inl EIO
              \<or> evs = [Wait_event_timeout t] \<and> r = Inl ETIME
              \<or> evs = [Wait_event_timeout t] \<and> r = Inr () \<and> state d' = SHT15_READING_NOTHING
              \<or> (\<exists>rc \<in> recovery_calls (val_status d AND 0x07).
                    evs = Wait_event_timeout t # rc \<and> (r = Inl EIO \<or> r = Inl EAGAIN)))"
    and "same_settings (d\<lparr>val_status := val_status d'\<rparr>) d'"
    and "r = Inl EAGAIN \<longrightarrow> val_status d' = val_status d AND 0x07"
    and "r = Inr () \<longrightarrow> same_settings d d'"
    by blast+
qed

lemma data_bytes_simps [simp]:
  "data_bytes [] = []"
  "data_bytes (Send_cmd c # Send_byte b # evs) = data_bytes evs"
  "data_bytes (Wait_event_timeout n # evs) = data_bytes evs"
  "data_bytes (Msleep n # evs) = data_bytes evs"
  by (simp_all add: data_bytes_def)

text \<open>
  C2, amended. In both the status-read path and the measurement path, every byte
  reissued through write-status by the recovery is the previous mirror masked with
  0x07, and after a successful recovery the mirror is that byte. The mask keeps the
  heater bit (0x04) together with the low-resolution and no-OTP-reload bits, and drops
  every bit above the low three.
\<close>

theorem recovery_reissues_low_three_bits:
  assumes "sht15_update_status hz j0 j1 (data, w) = (r, data', w')
           \<or> sht15_measurement env command timeout_msecs (data, w) = (r, data', w')"
  shows "set (data_bytes (new_calls w w')) \<subseteq> {val_status data AND 0x07}
     \<and> (r = Inl EAGAIN \<longrightarrow> val_status data' = val_status data AND 0x07)
     \<and> (val_status data AND 0x07) AND SHT15_STATUS_HEATER
          = val_status data AND SHT15_STATUS_HEATER
     \<and> (val_status data AND 0x07) AND 0xF8 = 0"
proof -
  have bits: "(val_status data AND 0x07) AND SHT15_STATUS_HEATER
          = val_status data AND SHT15_STATUS_HEATER"
      "(val_status data AND 0x07) AND 0xF8 = 0"
    by (simp_all add: SHT15_STATUS_HEATER_def and.assoc)
  have "set (data_bytes (new_calls w w')) \<subseteq> {val_status data AND 0x07}
     \<and> (r = Inl EAGAIN \<longrightarrow> val_status data' = val_status data AND 0x07)"
    using assms
  proof
    assume run: "sht15_update_status hz j0 j1 (data, w) = (r, data', w')"
    show ?thesis
    proof (cases rule: update_statusE [of data j0 hz j1 w])
      case fresh
      then show ?thesis using run by simp
    next
      case (cmd_nak w1)
      then show ?thesis using run by simp
    next
      case (stored status ok w1)
      then show ?thesis using run by simp
    next
      case (crc_failure w1)
      then have rec: "checksum_recovery (data\<lparr>checksum_ok := False\<rparr>, w1) = (r, data', w')"
        using run by simp
      obtain rc where rc: "rc \<in> recovery_calls (val_status data AND 0x07)"
          "calls w' = calls w1 @ rc"
        using checksum_recovery_summary(1) [OF rec] by auto
      have "new_calls w w' = Send_cmd SHT15_READ_STATUS # Send_byte SHT15_READ_STATUS # rc"
        using rc(2) crc_failure(4) by (intro new_calls_append) simp
      then show ?thesis
        using recovery_calls_facts(2) [OF rc(1)] checksum_recovery_summary(3) [OF rec]
        by simp
    qed
  next
    assume run: "sht15_measurement env command timeout_msecs (data, w) = (r, data', w')"
    from measurement_summary(1) [OF run]
    obtain evs where evs: "calls w' = calls w @ Send_cmd command # Send_byte command # evs"
      "evs = [] \<and> r = Inl EIO
       \<or> evs = [Wait_event_timeout timeout_msecs] \<and> r = Inl ETIME
       \<or> evs = [Wait_event_timeout timeout_msecs] \<and> r = Inr ()
           \<and> state data' = SHT15_READING_NOTHING
       \<or> (\<exists>rc \<in> recovery_calls (val_status data AND 0x07).
             evs = Wait_event_timeout timeout_msecs # rc \<and> (r = Inl EIO \<or> r = Inl EAGAIN))"
      by blast
    have nc: "new_calls w w' = Send_cmd command # Send_byte command # evs"
      using evs(1) by (intro new_calls_append) simp
    have "set (data_bytes evs) \<subseteq> {val_status data AND 0x07}"
      using evs(2) recovery_calls_facts(2) [of _ "val_status data AND 0x07"] by fastforce
    then show ?thesis using nc measurement_summary(3) [OF run] by simp
  qed
  with bits show ?thesis by simp
qed


lemma update_measurements_run:
  assumes "time_after j0 (last_measurement data + hz) \<or> \<not> measurements_valid data"
    and "sht15_measurement env_humid SHT15_MEASURE_RH 160
           (data\<lparr>state := SHT15_READING_HUMID\<rparr>, w) = (r1, data1, w1)"
    and "sht15_measurement env_temp SHT15_MEASURE_TEMP 400
           (data1\<lparr>state := SHT15_READING_TEMP\<rparr>, w1) = (r2, data2, w2)"
  shows "sht15_update_measurements hz j0 j1 env_humid env_temp (data, w) =
     (if r1 \<noteq> Inr () then (r1, data1, w1)
      else if r2 \<noteq> Inr () then (r2, data2, w2)
      else (Inr (), data2\<lparr>measurements_valid := True, last_measurement := j1\<rparr>, w2))"
  using assms by (cases r1; cases r2) (simp_all add: sht15_update_measurements_def)

lemma filter_steps_simps [simp]:
  "is_measurement_step (Send_cmd SHT15_MEASURE_RH)"
  "is_measurement_step (Send_cmd SHT15_MEASURE_TEMP)"
  "\<not> is_measurement_step (Send_cmd SHT15_SOFT_RESET)"
  "\<not> is_measurement_step (Send_cmd SHT15_WRITE_STATUS)"
  by simp_all

text \<open>The calls of one refresh of the measurement cache.\<close>

lemma update_measurements_calls:
  assumes stale: "time_after j0 (last_measurement data + hz) \<or> \<not> measurements_valid data"
    and m1: "sht15_measurement env_humid SHT15_MEASURE_RH 160
           (data\<lparr>state := SHT15_READING_HUMID\<rparr>, w) = (r1, data1, w1)"
    and m2: "sht15_measurement env_temp SHT15_MEASURE_TEMP 400
           (data1\<lparr>state := SHT15_READING_TEMP\<rparr>, w1) = (r2, data2, w2)"
    and res: "sht15_update_measurements hz j0 j1 env_humid env_temp (data, w) = (r, data', w')"
  shows "\<exists>evs. new_calls w w' = Send_cmd SHT15_MEASURE_RH # Send_byte SHT15_MEASURE_RH # evs
      \<and> (r1 \<noteq> Inr () \<and>
            (evs = [] \<or> evs = [Wait_event_timeout 160]
             \<or> (\<exists>rc \<in> recovery_calls (val_status data AND 0x07).
                   evs = Wait_event_timeout 160 # rc))
          \<or> r1 = Inr () \<and>
            (\<exists>evs2. evs = Wait_event_timeout 160 # Send_cmd SHT15_MEASURE_TEMP
                              # Send_byte SHT15_MEASURE_TEMP # evs2
               \<and> (r2 \<noteq> Inr () \<and> (evs2 = [] \<or> evs2 = [Wait_event_timeout 400]
                      \<or> (\<exists>rc \<in> recovery_calls (val_status data AND 0x07).
                            evs2 = Wait_event_timeout 400 # rc))
                   \<or> r2 = Inr () \<and> evs2 = [Wait_event_timeout 400])))"
proof -
  note run = update_measurements_run [OF stale m1 m2, of j1]
  from measurement_summary(1) [OF m1]
  obtain evs1 where e1:
    "calls w1 = calls w @ Send_cmd SHT15_MEASURE_RH # Send_byte SHT15_MEASURE_RH # evs1"
    "evs1 = [] \<and> r1 = Inl EIO
       \<or> evs1 = [Wait_event_timeout 160] \<and> r1 = Inl ETIME
       \<or> evs1 = [Wait_event_timeout 160] \<and> r1 = Inr () \<and> state data1 = SHT15_READING_NOTHING
       \<or> (\<exists>rc \<in> recovery_calls (val_status data AND 0x07).
             evs1 = Wait_event_timeout 160 # rc \<and> (r1 = Inl EIO \<or> r1 = Inl EAGAIN))"
    by auto
  show ?thesis
  proof (cases "r1 = Inr ()")
    case False
    then have "w' = w1" using run res by simp
    then have "new_calls w w' = Send_cmd SHT15_MEASURE_RH # Send_byte SHT15_MEASURE_RH # evs1"
      using e1(1) by (intro new_calls_append) simp
    then show ?thesis using False e1(2) by auto
  next
    case True
    then have ev1: "evs1 = [Wait_event_timeout 160]" using e1(2) by auto
    have vs: "val_status data1 = val_status data"
      using measurement_summary(4) [OF m1] True by (simp add: same_settings_def)
    from measurement_summary(1) [OF m2]
    obtain evs2 where e2:
      "calls w2 = calls w1 @ Send_cmd SHT15_MEASURE_TEMP # Send_byte SHT15_MEASURE_TEMP # evs2"
      "evs2 = [] \<and> r2 = Inl EIO
       \<or> evs2 = [Wait_event_timeout 400] \<and> r2 = Inl ETIME
       \<or> evs2 = [Wait_event_timeout 400] \<and> r2 = Inr () \<and> state data2 = SHT15_READING_NOTHING
       \<or> (\<exists>rc \<in> recovery_calls (val_status data AND 0x07).
             evs2 = Wait_event_timeout 400 # rc \<and> (r2 = Inl EIO \<or> r2 = Inl EAGAIN))"
      using vs by auto
    have "w' = w2" using run res True by (simp split: if_splits)
    then have "new_calls w w' = Send_cmd SHT15_MEASURE_RH # Send_byte SHT15_MEASURE_RH
        # Wait_event_timeout 160 # Send_cmd SHT15_MEASURE_TEMP # Send_byte SHT15_MEASURE_TEMP # evs2"
      using e1(1) e2(1) ev1 by (intro new_calls_append) simp
    then show ?thesis using True e2(2) by auto
  qed
qed


lemma measurement_keeps_cache:
  assumes "sht15_measurement env c t (d, w) = (r, d', w')"
  shows "measurements_valid d' = measurements_valid d"
    and "last_measurement d' = last_measurement d"
  using measurement_summary(2) [OF assms] by (simp_all add: same_settings_def)

text \<open>
  C8. For every measurement refresh (cache stale or invalid) the first call is the
  humidity command; the measurement steps are a prefix of: humidity command, wait of
  160 ms, temperature command, wait of 400 ms. The refresh succeeds exactly when both
  measurements succeed, and only then is the cache marked valid with the new time
  stamp; otherwise validity and time stamp are unchanged.
\<close>

theorem update_measurements_order:
  assumes stale: "time_after j0 (last_measurement data + hz) \<or> \<not> measurements_valid data"
    and m1: "sht15_measurement env_humid SHT15_MEASURE_RH 160
           (data\<lparr>state := SHT15_READING_HUMID\<rparr>, w) = (r1, data1, w1)"
    and m2: "sht15_measurement env_temp SHT15_MEASURE_TEMP 400
           (data1\<lparr>state := SHT15_READING_TEMP\<rparr>, w1) = (r2, data2, w2)"
    and res: "sht15_update_measurements hz j0 j1 env_humid env_temp (data, w) = (r, data', w')"
  shows "(\<exists>rest. new_calls w w' = Send_cmd SHT15_MEASURE_RH # Send_byte SHT15_MEASURE_RH # rest)
    \<and> prefix (filter is_measurement_step (new_calls w w'))
         [Send_cmd SHT15_MEASURE_RH, Wait_event_timeout 160,
          Send_cmd SHT15_MEASURE_TEMP, Wait_event_timeout 400]
    \<and> ((r = Inr ()) = (r1 = Inr () \<and> r2 = Inr ()))
    \<and> (r = Inr () \<longrightarrow>
          filter is_measurement_step (new_calls w w') =
            [Send_cmd SHT15_MEASURE_RH, Wait_event_timeout 160,
             Send_cmd SHT15_MEASURE_TEMP, Wait_event_timeout 400]
          \<and> measurements_valid data' \<and> last_measurement data' = j1)
    \<and> (r \<noteq> Inr () \<longrightarrow>
          measurements_valid data' = measurements_valid data
          \<and> last_measurement data' = last_measurement data)"
proof -
  note run = update_measurements_run [OF stale m1 m2, of j1]
  have ok: "(r = Inr ()) = (r1 = Inr () \<and> r2 = Inr ())"
    using run res by (auto split: if_splits)
  have keep: "r \<noteq> Inr () \<longrightarrow>
          measurements_valid data' = measurements_valid data
          \<and> last_measurement data' = last_measurement data"
    using run res measurement_keeps_cache [OF m1] measurement_keeps_cache [OF m2]
    by (auto split: if_splits)
  have mark: "r = Inr () \<longrightarrow> measurements_valid data' \<and> last_measurement data' = j1"
    using run res by (auto split: if_splits)
  have flt: "\<And>rc. rc \<in> recovery_calls (val_status data AND 0x07) \<Longrightarrow>
      filter is_measurement_step rc = []"
    by (rule recovery_calls_facts(1))
  from update_measurements_calls [OF stale m1 m2 res]
  obtain evs where evs:
    "new_calls w w' = Send_cmd SHT15_MEASURE_RH # Send_byte SHT15_MEASURE_RH # evs"
    "r1 \<noteq> Inr () \<and>
            (evs = [] \<or> evs = [Wait_event_timeout 160]
             \<or> (\<exists>rc \<in> recovery_calls (val_status data AND 0x07).
                   evs = Wait_event_timeout 160 # rc))
          \<or> r1 = Inr () \<and>
            (\<exists>evs2. evs = Wait_event_timeout 160 # Send_cmd SHT15_MEASURE_TEMP
                              # Send_byte SHT15_MEASURE_TEMP # evs2
               \<and> (r2 \<noteq> Inr () \<and> (evs2 = [] \<or> evs2 = [Wait_event_timeout 400]
                      \<or> (\<exists>rc \<in> recovery_calls (val_status data AND 0x07).
                            evs2 = Wait_event_timeout 400 # rc))
                   \<or> r2 = Inr () \<and> evs2 = [Wait_event_timeout 400]))"
    by blast
  have steps: "prefix (filter is_measurement_step (new_calls w w'))
         [Send_cmd SHT15_MEASURE_RH, Wait_event_timeout 160,
          Send_cmd SHT15_MEASURE_TEMP, Wait_event_timeout 400]
     \<and> (r1 = Inr () \<and> r2 = Inr () \<longrightarrow>
          filter is_measurement_step (new_calls w w') =
            [Send_cmd SHT15_MEASURE_RH, Wait_event_timeout 160,
             Send_cmd SHT15_MEASURE_TEMP, Wait_event_timeout 400])"
    unfolding evs(1) using evs(2) flt by auto
  show ?thesis using evs(1) steps ok keep mark by simp
qed

lemma time_after_elapsed:
  assumes "elapsed + unat hz < 2 ^ 31"
  shows "time_after (stamp + of_nat elapsed) (stamp + hz) \<longleftrightarrow> unat hz < elapsed"
proof -
  let ?k = "int (unat hz) - int elapsed"
  have b: "int elapsed + int (unat hz) < 2 ^ 31"
    using assms by (metis of_nat_add of_nat_less_numeral_power_cancel_iff)
  have "(stamp + hz) - (stamp + of_nat elapsed) = hz - of_nat elapsed" by simp
  also have "\<dots> = (word_of_int ?k :: ulong)" by simp
  finally have "sint ((stamp + hz) - (stamp + of_nat elapsed)) = signed_take_bit 31 ?k"
    by (simp only: signed_of_int) simp
  also have "\<dots> = ?k"
  proof (rule signed_take_bit_int_eq_self)
    show "- (2 ^ 31) \<le> ?k" using b by linarith
    show "?k < 2 ^ 31" using b by linarith
  qed
  finally have "sint ((stamp + hz) - (stamp + of_nat elapsed)) = ?k" .
  then have "time_after (stamp + of_nat elapsed) (stamp + hz) \<longleftrightarrow> ?k < 0"
    by (simp only: time_after_def)
  also have "\<dots> \<longleftrightarrow> unat hz < elapsed" by linarith
  finally show ?thesis .
qed

text \<open>
  The staleness test of both caches, as the code writes it: with a valid cache and a
  test that does not fire nothing is sent; otherwise one refresh is made.
\<close>

lemma staleness_test:
  "(status_valid data \<and> \<not> time_after j0 (last_status data + hz) \<longrightarrow>
      sht15_update_status hz j0 j1 (data, w) = (Inr (), data, w))
   \<and> (\<not> status_valid data \<or> time_after j0 (last_status data + hz) \<longrightarrow>
      count_list
        (cmds_of (new_calls w (snd (snd (sht15_update_status hz j0 j1 (data, w))))))
        SHT15_READ_STATUS = 1)
   \<and> (measurements_valid data \<and> \<not> time_after j0 (last_measurement data + hz) \<longrightarrow>
      sht15_update_measurements hz j0 j1 env_humid env_temp (data, w) = (Inr (), data, w))
   \<and> (\<not> measurements_valid data \<or> time_after j0 (last_measurement data + hz) \<longrightarrow>
      count_list
        (cmds_of (new_calls w
           (snd (snd (sht15_update_measurements hz j0 j1 env_humid env_temp (data, w))))))
        SHT15_MEASURE_RH = 1
      \<and> count_list
        (cmds_of (new_calls w
           (snd (snd (sht15_update_measurements hz j0 j1 env_humid env_temp (data, w))))))
        SHT15_MEASURE_TEMP \<le> 1)
   \<and> (elapsed + unat hz < 2 ^ 31 \<longrightarrow>
        (time_after (stamp + of_nat elapsed) (stamp + hz) \<longleftrightarrow> unat hz < elapsed))"
proof (intro conjI impI)
  assume "elapsed + unat hz < 2 ^ 31"
  then show "time_after (stamp + of_nat elapsed) (stamp + hz) \<longleftrightarrow> unat hz < elapsed"
    by (rule time_after_elapsed)
next
  assume "status_valid data \<and> \<not> time_after j0 (last_status data + hz)"
  then show "sht15_update_status hz j0 j1 (data, w) = (Inr (), data, w)"
    by (simp add: sht15_update_status_def)
next
  assume stale: "\<not> status_valid data \<or> time_after j0 (last_status data + hz)"
  let ?w' = "snd (snd (sht15_update_status hz j0 j1 (data, w)))"
  show "count_list (cmds_of (new_calls w ?w')) SHT15_READ_STATUS = 1"
  proof (cases rule: update_statusE [of data j0 hz j1 w])
    case fresh
    then show ?thesis using stale by simp
  next
    case (cmd_nak w1)
    then show ?thesis by simp
  next
    case (stored status ok w1)
    then show ?thesis by simp
  next
    case (crc_failure w1)
    obtain r d' w' where rec: "checksum_recovery (data\<lparr>checksum_ok := False\<rparr>, w1) = (r, d', w')"
      by (cases "checksum_recovery (data\<lparr>checksum_ok := False\<rparr>, w1)")
    obtain rc where rc: "rc \<in> recovery_calls (val_status data AND 0x07)"
        "calls w' = calls w1 @ rc"
      using checksum_recovery_summary(1) [OF rec] by auto
    have "new_calls w w' = Send_cmd SHT15_READ_STATUS # Send_byte SHT15_READ_STATUS # rc"
      using rc(2) crc_failure(4) by (intro new_calls_append) simp
    then show ?thesis
      using crc_failure(3) rec recovery_calls_facts(3) [OF rc(1)] by auto
  qed
next
  assume "measurements_valid data \<and> \<not> time_after j0 (last_measurement data + hz)"
  then show "sht15_update_measurements hz j0 j1 env_humid env_temp (data, w) = (Inr (), data, w)"
    by (simp add: sht15_update_measurements_def)
next
  assume "\<not> measurements_valid data \<or> time_after j0 (last_measurement data + hz)"
  then have stale: "time_after j0 (last_measurement data + hz) \<or> \<not> measurements_valid data"
    by blast
  obtain r1 data1 w1 where m1: "sht15_measurement env_humid SHT15_MEASURE_RH 160
           (data\<lparr>state := SHT15_READING_HUMID\<rparr>, w) = (r1, data1, w1)"
    by (cases "sht15_measurement env_humid SHT15_MEASURE_RH 160
           (data\<lparr>state := SHT15_READING_HUMID\<rparr>, w)")
  obtain r2 data2 w2 where m2: "sht15_measurement env_temp SHT15_MEASURE_TEMP 400
           (data1\<lparr>state := SHT15_READING_TEMP\<rparr>, w1) = (r2, data2, w2)"
    by (cases "sht15_measurement env_temp SHT15_MEASURE_TEMP 400
           (data1\<lparr>state := SHT15_READING_TEMP\<rparr>, w1)")
  obtain r data' w' where res:
    "sht15_update_measurements hz j0 j1 env_humid env_temp (data, w) = (r, data', w')"
    by (cases "sht15_update_measurements hz j0 j1 env_humid env_temp (data, w)")
  have cm: "\<And>rc. rc \<in> recovery_calls (val_status data AND 0x07) \<Longrightarrow>
      count_list (cmds_of rc) SHT15_MEASURE_RH = 0 \<and> count_list (cmds_of rc) SHT15_MEASURE_TEMP = 0"
    using recovery_calls_facts(3) by fastforce
  from update_measurements_calls [OF stale m1 m2 res]
  obtain evs where evs:
    "new_calls w w' = Send_cmd SHT15_MEASURE_RH # Send_byte SHT15_MEASURE_RH # evs"
    "r1 \<noteq> Inr () \<and>
            (evs = [] \<or> evs = [Wait_event_timeout 160]
             \<or> (\<exists>rc \<in> recovery_calls (val_status data AND 0x07).
                   evs = Wait_event_timeout 160 # rc))
          \<or> r1 = Inr () \<and>
            (\<exists>evs2. evs = Wait_event_timeout 160 # Send_cmd SHT15_MEASURE_TEMP
                              # Send_byte SHT15_MEASURE_TEMP # evs2
               \<and> (r2 \<noteq> Inr () \<and> (evs2 = [] \<or> evs2 = [Wait_event_timeout 400]
                      \<or> (\<exists>rc \<in> recovery_calls (val_status data AND 0x07).
                            evs2 = Wait_event_timeout 400 # rc))
                   \<or> r2 = Inr () \<and> evs2 = [Wait_event_timeout 400]))"
    by blast
  have "count_list (cmds_of (new_calls w w')) SHT15_MEASURE_RH = 1
      \<and> count_list (cmds_of (new_calls w w')) SHT15_MEASURE_TEMP \<le> 1"
    unfolding evs(1) using evs(2) cm by auto
  then show "count_list
        (cmds_of (new_calls w
           (snd (snd (sht15_update_measurements hz j0 j1 env_humid env_temp (data, w))))))
        SHT15_MEASURE_RH = 1"
    and "count_list
        (cmds_of (new_calls w
           (snd (snd (sht15_update_measurements hz j0 j1 env_humid env_temp (data, w))))))
        SHT15_MEASURE_TEMP \<le> 1"
    using res by simp_all
qed

text \<open>
  C5, amended. For every status or measurement access made fewer than 2^31 - \<open>HZ\<close>
  ticks after the time stamp of the cached value: if the value is valid and at most
  \<open>HZ\<close> ticks (one second) have elapsed, the access sends no command and returns
  success with the data and the hardware untouched, so the cached value is used; if
  more than \<open>HZ\<close> ticks have elapsed or the validity flag is false, the access makes
  exactly one refresh cycle (exactly one read-status command, resp. exactly one
  humidity command and at most one temperature command). An invalid cache is
  refreshed at any time.
\<close>

theorem staleness_window:
  assumes bound: "elapsed + unat hz < 2 ^ 31"
  shows "(status_valid data \<and> elapsed \<le> unat hz \<longrightarrow>
      sht15_update_status hz (last_status data + of_nat elapsed) stored (data, w)
        = (Inr (), data, w))
   \<and> (\<not> status_valid data \<or> unat hz < elapsed \<longrightarrow>
      count_list
        (cmds_of (new_calls w (snd (snd
           (sht15_update_status hz (last_status data + of_nat elapsed) stored (data, w))))))
        SHT15_READ_STATUS = 1)
   \<and> (measurements_valid data \<and> elapsed \<le> unat hz \<longrightarrow>
      sht15_update_measurements hz (last_measurement data + of_nat elapsed) stored
        env_humid env_temp (data, w) = (Inr (), data, w))
   \<and> (\<not> measurements_valid data \<or> unat hz < elapsed \<longrightarrow>
      count_list
        (cmds_of (new_calls w (snd (snd
           (sht15_update_measurements hz (last_measurement data + of_nat elapsed) stored
              env_humid env_temp (data, w))))))
        SHT15_MEASURE_RH = 1
      \<and> count_list
        (cmds_of (new_calls w (snd (snd
           (sht15_update_measurements hz (last_measurement data + of_nat elapsed) stored
              env_humid env_temp (data, w))))))
        SHT15_MEASURE_TEMP \<le> 1)
   \<and> (\<not> status_valid data \<longrightarrow>
      count_list
        (cmds_of (new_calls w (snd (snd (sht15_update_status hz now stored (data, w))))))
        SHT15_READ_STATUS = 1)
   \<and> (\<not> measurements_valid data \<longrightarrow>
      count_list
        (cmds_of (new_calls w (snd (snd
           (sht15_update_measurements hz now stored env_humid env_temp (data, w))))))
        SHT15_MEASURE_RH = 1
      \<and> count_list
        (cmds_of (new_calls w (snd (snd
           (sht15_update_measurements hz now stored env_humid env_temp (data, w))))))
        SHT15_MEASURE_TEMP \<le> 1)"
proof -
  have ts: "time_after (last_status data + of_nat elapsed) (last_status data + hz)
      \<longleftrightarrow> unat hz < elapsed"
    using bound by (rule time_after_elapsed)
  have tm: "time_after (last_measurement data + of_nat elapsed) (last_measurement data + hz)
      \<longleftrightarrow> unat hz < elapsed"
    using bound by (rule time_after_elapsed)
  note s1 = staleness_test [of data "last_status data + of_nat elapsed" hz stored w env_humid env_temp]
  note s2 = staleness_test [of data "last_measurement data + of_nat elapsed" hz stored w env_humid env_temp]
  note s3 = staleness_test [of data now hz stored w env_humid env_temp]
  have a: "status_valid data \<and> elapsed \<le> unat hz \<longrightarrow>
      sht15_update_status hz (last_status data + of_nat elapsed) stored (data, w)
        = (Inr (), data, w)"
    using s1 ts by auto
  have b: "\<not> status_valid data \<or> unat hz < elapsed \<longrightarrow>
      count_list
        (cmds_of (new_calls w (snd (snd
           (sht15_update_status hz (last_status data + of_nat elapsed) stored (data, w))))))
        SHT15_READ_STATUS = 1"
    using s1 ts by blast
  have c: "measurements_valid data \<and> elapsed \<le> unat hz \<longrightarrow>
      sht15_update_measurements hz (last_measurement data + of_nat elapsed) stored
        env_humid env_temp (data, w) = (Inr (), data, w)"
    using s2 tm by auto
  have d: "\<not> measurements_valid data \<or> unat hz < elapsed \<longrightarrow>
      count_list
        (cmds_of (new_calls w (snd (snd
           (sht15_update_measurements hz (last_measurement data + of_nat elapsed) stored
              env_humid env_temp (data, w))))))
        SHT15_MEASURE_RH = 1
      \<and> count_list
        (cmds_of (new_calls w (snd (snd
           (sht15_update_measurements hz (last_measurement data + of_nat elapsed) stored
              env_humid env_temp (data, w))))))
        SHT15_MEASURE_TEMP \<le> 1"
    using s2 tm by blast
  have e: "\<not> status_valid data \<longrightarrow>
      count_list
        (cmds_of (new_calls w (snd (snd (sht15_update_status hz now stored (data, w))))))
        SHT15_READ_STATUS = 1"
    using s3 by blast
  have f: "\<not> measurements_valid data \<longrightarrow>
      count_list
        (cmds_of (new_calls w (snd (snd
           (sht15_update_measurements hz now stored env_humid env_temp (data, w))))))
        SHT15_MEASURE_RH = 1
      \<and> count_list
        (cmds_of (new_calls w (snd (snd
           (sht15_update_measurements hz now stored env_humid env_temp (data, w))))))
        SHT15_MEASURE_TEMP \<le> 1"
    using s3 by blast
  from a b c d e f show ?thesis by blast
qed

text \<open>
  C10. The byte that \<open>sht15_store_heater\<close> writes is the status mirror masked to its
  low three bits, with the heater bit set or cleared as requested: the low-resolution
  and no-OTP-reload bits of the mirror are kept, every bit above the low three
  (battery-low included) is zero, and the only command sent is write-status, so no
  status is read from the device before the read-modify-write.
\<close>

theorem store_heater_effect:
  assumes res: "sht15_store_heater (Some v) count (data, w) = (r, data', w')"
    and st: "status = (if v \<noteq> 0 then (val_status data AND 0x07) OR SHT15_STATUS_HEATER
                       else (val_status data AND 0x07) AND NOT SHT15_STATUS_HEATER)"
  shows "(new_calls w w' = [Send_cmd SHT15_WRITE_STATUS, Send_byte SHT15_WRITE_STATUS]
          \<or> new_calls w w' = [Send_cmd SHT15_WRITE_STATUS, Send_byte SHT15_WRITE_STATUS,
                               Send_byte status])
    \<and> (fst (sht15_send_cmd SHT15_WRITE_STATUS w) = Inr () \<longrightarrow>
         new_calls w w' = [Send_cmd SHT15_WRITE_STATUS, Send_byte SHT15_WRITE_STATUS,
                           Send_byte status])
    \<and> cmds_of (new_calls w w') = [SHT15_WRITE_STATUS]
    \<and> status AND (SHT15_STATUS_LOW_RESOLUTION OR SHT15_STATUS_NO_OTP_RELOAD)
         = val_status data AND (SHT15_STATUS_LOW_RESOLUTION OR SHT15_STATUS_NO_OTP_RELOAD)
    \<and> status AND SHT15_STATUS_HEATER = (if v \<noteq> 0 then SHT15_STATUS_HEATER else 0)
    \<and> status AND 0xF8 = 0
    \<and> status AND SHT15_STATUS_LOW_BATTERY = 0
    \<and> (r = Inr count \<longrightarrow> val_status data' = status)
    \<and> (r \<noteq> Inr count \<longrightarrow> r = Inl EIO \<and> val_status data' = val_status data)"
proof -
  have bits: "status AND (SHT15_STATUS_LOW_RESOLUTION OR SHT15_STATUS_NO_OTP_RELOAD)
         = val_status data AND (SHT15_STATUS_LOW_RESOLUTION OR SHT15_STATUS_NO_OTP_RELOAD)"
      "status AND SHT15_STATUS_HEATER = (if v \<noteq> 0 then SHT15_STATUS_HEATER else 0)"
      "status AND 0xF8 = 0" "status AND SHT15_STATUS_LOW_BATTERY = 0"
    unfolding st
    by (simp_all add: SHT15_STATUS_HEATER_def SHT15_STATUS_LOW_RESOLUTION_def
          SHT15_STATUS_NO_OTP_RELOAD_def SHT15_STATUS_LOW_BATTERY_def
          bit.conj_disj_distrib2 and.assoc and.left_commute)
  have run: "sht15_store_heater (Some v) count (data, w) =
      (case sht15_send_status status (data, w) of
         (Inl e, d, w) \<Rightarrow> (Inl e, d, w) | (Inr u, d, w) \<Rightarrow> (Inr count, d, w))"
    unfolding st by (simp add: sht15_store_heater_def Let_def)
  have "(new_calls w w' = [Send_cmd SHT15_WRITE_STATUS, Send_byte SHT15_WRITE_STATUS]
          \<or> new_calls w w' = [Send_cmd SHT15_WRITE_STATUS, Send_byte SHT15_WRITE_STATUS,
                               Send_byte status])
    \<and> (fst (sht15_send_cmd SHT15_WRITE_STATUS w) = Inr () \<longrightarrow>
         new_calls w w' = [Send_cmd SHT15_WRITE_STATUS, Send_byte SHT15_WRITE_STATUS,
                           Send_byte status])
    \<and> cmds_of (new_calls w w') = [SHT15_WRITE_STATUS]
    \<and> (r = Inr count \<longrightarrow> val_status data' = status)
    \<and> (r \<noteq> Inr count \<longrightarrow> r = Inl EIO \<and> val_status data' = val_status data)"
  proof (cases rule: send_statusE [of w status data])
    case (cmd_nak w1)
    then show ?thesis using run res by simp
  next
    case (byte_nak w1 w2)
    then show ?thesis using run res by simp
  next
    case (written w1 w2)
    then show ?thesis using run res by simp
  qed
  with bits show ?thesis by simp
qed

section \<open>Runs on concrete inputs\<close>

lemma read_byte_unrolled:
  "sht15_read_byte w = read_byte_loop (Suc (Suc (Suc (Suc (Suc (Suc (Suc (Suc 0)))))))) 0 w"
  by (simp add: sht15_read_byte_def eval_nat_numeral)

lemma send_byte_unrolled:
  "sht15_send_byte b w =
     send_byte_loop (Suc (Suc (Suc (Suc (Suc (Suc (Suc (Suc 0)))))))) b (emit (Send_byte b) w)"
  by (simp add: sht15_send_byte_def eval_nat_numeral)

lemma connection_reset_unrolled:
  "sht15_connection_reset w =
     connection_reset_loop (Suc (Suc (Suc (Suc (Suc (Suc (Suc (Suc (Suc 0)))))))))
       (ndelay SHT15_TSCKL (gpio_set_value Gpio_sck False
         (ndelay SHT15_TSCKL (gpio_direction_output Gpio_data True w))))"
  by (simp add: sht15_connection_reset_def eval_nat_numeral)

lemmas run_defs = read_byte_unrolled send_byte_unrolled connection_reset_unrolled
  sht15_send_cmd_def sht15_wait_for_response_def gpio_get_value_def bus0_def
  line_defs emit_def sht15_transmission_start_def sht15_send_bit_def sht15_ack_def
  sht15_end_transmission_def msleep_def enable_irq_def disable_irq_nosync_def
  schedule_work_def session0_def Let_def calls_def new_calls_def cmds_of_def
  data_bytes_def

lemmas driver_defs = sht15_update_status_def checksum_recovery_def sht15_soft_reset_def
  sht15_send_status_def sht15_measurement_def sht15_update_measurements_def
  wait_event_timeout_def irq_window_def sht15_interrupt_fired_def sht15_bh_read_data_def
  bh_read_values_def sht15_store_heater_def int_add_def s32_def time_after_def

lemma crc_status_5: "val_status d = 5 \<Longrightarrow> sht15_crc8 d [SHT15_READ_STATUS, 0] = 81"
proof -
  have "sht15_crc8_loop (sht15_reverse (5 AND 0x0F)) [SHT15_READ_STATUS, 0] = 81"
    by code_simp
  then show "val_status d = 5 \<Longrightarrow> sht15_crc8 d [SHT15_READ_STATUS, 0] = 81"
    by (simp only: sht15_crc8_def)
qed

lemma crc_status_4: "val_status d = 4 \<Longrightarrow> sht15_crc8 d [SHT15_READ_STATUS, 0] = 114"
proof -
  have "sht15_crc8_loop (sht15_reverse (4 AND 0x0F)) [SHT15_READ_STATUS, 0] = 114"
    by code_simp
  then show "val_status d = 4 \<Longrightarrow> sht15_crc8 d [SHT15_READ_STATUS, 0] = 114"
    by (simp only: sht15_crc8_def)
qed

lemma rev_0: "sht15_reverse 0 = 0"
  by code_simp

lemma crc_measure_4:
  "val_status d = 4 \<Longrightarrow> sht15_crc8 d [SHT15_MEASURE_RH, 0, 0] = 22"
proof -
  have "sht15_crc8_loop (sht15_reverse (4 AND 0x0F)) [SHT15_MEASURE_RH, 0, 0] = 22"
    by code_simp
  then show "val_status d = 4 \<Longrightarrow> sht15_crc8 d [SHT15_MEASURE_RH, 0, 0] = 22"
    by (simp only: sht15_crc8_def)
qed

lemma triple_collapse: "x = (fst x, fst (snd x), snd (snd x))"
  by simp

text \<open>
  C6. \<open>sht15_soft_reset\<close> sends the soft-reset command; when the command is
  acknowledged it sleeps for \<open>SHT15_TSRST\<close> = 11 ms and sets the status mirror to 0;
  when it is not acknowledged it returns the error and leaves the mirror as it was.
\<close>

theorem soft_reset_effect:
  assumes "sht15_send_cmd SHT15_SOFT_RESET w = (r, w1)"
  shows "(r = Inr () \<longrightarrow>
            sht15_soft_reset (data, w) = (Inr (), data\<lparr>val_status := 0\<rparr>, msleep 11 w1)
            \<and> SHT15_TSRST = 11
            \<and> new_calls w (msleep 11 w1) =
                [Send_cmd SHT15_SOFT_RESET, Send_byte SHT15_SOFT_RESET, Msleep 11])
       \<and> (r \<noteq> Inr () \<longrightarrow>
            sht15_soft_reset (data, w) = (r, data, w1)
            \<and> new_calls w w1 = [Send_cmd SHT15_SOFT_RESET, Send_byte SHT15_SOFT_RESET])"
  using assms by (cases rule: soft_resetE [of w data]) (auto simp add: SHT15_TSRST_def)

theorem soft_reset_effect_witness:
  "(case sht15_soft_reset (session0\<lparr>val_status := 5\<rparr>, bus0 [False]) of
      (r, d, w) \<Rightarrow> r = Inr () \<and> val_status d = 0
        \<and> calls w = [Send_cmd SHT15_SOFT_RESET, Send_byte SHT15_SOFT_RESET, Msleep 11])
   \<and> (case sht15_soft_reset (session0\<lparr>val_status := 5\<rparr>, bus0 [True]) of
      (r, d, w) \<Rightarrow> r = Inl EIO \<and> val_status d = 5
        \<and> calls w = [Send_cmd SHT15_SOFT_RESET, Send_byte SHT15_SOFT_RESET])"
proof -
  have a: "sht15_send_cmd SHT15_SOFT_RESET (bus0 [False]) =
      (Inr (), snd (sht15_send_cmd SHT15_SOFT_RESET (bus0 [False])))"
    by (simp add: run_defs)
  have b: "sht15_send_cmd SHT15_SOFT_RESET (bus0 [True]) =
      (Inl EIO, snd (sht15_send_cmd SHT15_SOFT_RESET (bus0 [True])))"
    by (simp add: run_defs)
  show ?thesis
    using soft_reset_effect [OF a, of "session0\<lparr>val_status := 5\<rparr>"]
      soft_reset_effect [OF b, of "session0\<lparr>val_status := 5\<rparr>"]
    by (simp add: driver_defs run_defs)
qed

text \<open>
  C4, as stated, fails when the soft-reset command is not acknowledged: with the
  previous configuration bits 5 and a checksum mismatch, no write-status follows.
\<close>

theorem status_recovery_write_counterexample:
  "val_status (session0\<lparr>val_status := 5\<rparr>) AND 0x07 \<noteq> 0
   \<and> fst (sht15_update_status 100 0 0 (session0\<lparr>val_status := 5\<rparr>,
        bus0 [False, False, False, False, False, False, False, False, False,
              False, False, False, False, False, False, False, False, True])) = Inl EIO
   \<and> \<not> checksum_ok (fst (snd (sht15_update_status 100 0 0 (session0\<lparr>val_status := 5\<rparr>,
        bus0 [False, False, False, False, False, False, False, False, False,
              False, False, False, False, False, False, False, False, True]))))
   \<and> cmds_of (calls (snd (snd (sht15_update_status 100 0 0 (session0\<lparr>val_status := 5\<rparr>,
        bus0 [False, False, False, False, False, False, False, False, False,
              False, False, False, False, False, False, False, False, True])))))
       = [SHT15_READ_STATUS, SHT15_SOFT_RESET]"
  by (simp add: driver_defs run_defs crc_status_5 rev_0)

theorem status_crc_failure_recovery_witness:
  "(case sht15_update_status 100 0 0 (session0\<lparr>val_status := 5\<rparr>, bus0 [False, False, False, False, False, False, False, False, False, False,
              False, False, False, False, False, False, False, False, False, False]) of
      (r, d, w) \<Rightarrow> r = Inl EAGAIN \<and> val_status d = 5 \<and> \<not> status_valid d
        \<and> cmds_of (new_calls (bus0 [False, False, False, False, False, False, False, False, False, False,
              False, False, False, False, False, False, False, False, False, False]) w) =
            [SHT15_READ_STATUS, SHT15_SOFT_RESET, SHT15_WRITE_STATUS])"
proof -
  let ?D = "session0\<lparr>val_status := 5\<rparr>" and ?W = "bus0 [False, False, False, False, False, False, False, False, False, False,
              False, False, False, False, False, False, False, False, False, False]"
  let ?w1 = "snd (sht15_send_cmd SHT15_READ_STATUS ?W)"
  let ?w2 = "snd (sht15_read_byte ?w1)"
  let ?w3 = "snd (sht15_read_byte (sht15_ack ?w2))"
  let ?R1 = "sht15_soft_reset (?D\<lparr>checksum_ok := False\<rparr>, sht15_end_transmission ?w3)"
  let ?R2 = "sht15_send_status (val_status ?D AND 0x07) (fst (snd ?R1), snd (snd ?R1))"
  let ?U = "sht15_update_status 100 0 0 (?D, ?W)"
  have stale: "time_after 0 (last_status ?D + 100) \<or> \<not> status_valid ?D"
    by (simp add: session0_def)
  have chk: "checksumming ?D" by (simp add: session0_def)
  have cmd: "sht15_send_cmd SHT15_READ_STATUS ?W = (Inr (), ?w1)"
    by (simp add: run_defs)
  have rd: "sht15_read_byte ?w1 = (fst (sht15_read_byte ?w1), ?w2)" by simp
  have rc: "sht15_read_byte (sht15_ack ?w2) = (fst (sht15_read_byte (sht15_ack ?w2)), ?w3)"
    by simp
  have bad: "sht15_crc8 ?D [SHT15_READ_STATUS, fst (sht15_read_byte ?w1)]
      \<noteq> sht15_reverse (fst (sht15_read_byte (sht15_ack ?w2)))"
    by (simp add: run_defs crc_status_5 rev_0)
  note t = status_crc_failure_recovery [OF stale chk cmd rd rc bad
      triple_collapse [of ?R1] triple_collapse [of ?R2] triple_collapse [of ?U]]
  show ?thesis using t
    by (simp add: driver_defs run_defs crc_status_5 rev_0)
qed

text \<open>
  C2, as stated, fails: with the heater bit set in the previous mirror, the byte
  reissued by the recovery is the heater bit, and the mirror has it again afterwards.
\<close>

theorem recovery_drops_heater_counterexample:
  "fst (sht15_update_status 100 0 0 (session0\<lparr>val_status := SHT15_STATUS_HEATER\<rparr>,
        bus0 [False, False, False, False, False, False, False, False, False,
              False, False, False, False, False, False, False, False,
              False, False, False])) = Inl EAGAIN
   \<and> data_bytes (calls (snd (snd (sht15_update_status 100 0 0
        (session0\<lparr>val_status := SHT15_STATUS_HEATER\<rparr>,
        bus0 [False, False, False, False, False, False, False, False, False,
              False, False, False, False, False, False, False, False,
              False, False, False]))))) = [SHT15_STATUS_HEATER]
   \<and> val_status (fst (snd (sht15_update_status 100 0 0
        (session0\<lparr>val_status := SHT15_STATUS_HEATER\<rparr>,
        bus0 [False, False, False, False, False, False, False, False, False,
              False, False, False, False, False, False, False, False,
              False, False, False])))) = SHT15_STATUS_HEATER"
  by (simp add: driver_defs run_defs crc_status_4 rev_0 SHT15_STATUS_HEATER_def)

theorem recovery_reissues_low_three_bits_witness:
  "(case sht15_update_status 100 0 0 (session0\<lparr>val_status := 4\<rparr>, bus0 [False, False, False, False, False, False, False, False, False, False,
              False, False, False, False, False, False, False, False, False, False]) of
      (r, d, w) \<Rightarrow> r = Inl EAGAIN \<and> val_status d = 4
        \<and> data_bytes (new_calls (bus0 [False, False, False, False, False, False, False, False, False, False,
              False, False, False, False, False, False, False, False, False, False]) w) = [4])
   \<and> (case sht15_measurement \<lparr>irq_on_enable = False, wait_sched = [Irq_edge, Work_runs False]\<rparr>
            SHT15_MEASURE_RH 160
            (session0\<lparr>val_status := 4, state := SHT15_READING_HUMID\<rparr>,
             bus0 (False # True # [False, False, False, False, False, False, False, False, False, False,
              False, False, False, False, False, False, False, False, False, False] @ [False, False, False, False, False, False, False,
                                         False])) of
      (r, d, w) \<Rightarrow> r = Inl EAGAIN \<and> val_status d = 4
        \<and> data_bytes (new_calls
             (bus0 (False # True # [False, False, False, False, False, False, False, False, False, False,
              False, False, False, False, False, False, False, False, False, False] @ [False, False, False, False, False, False, False,
                                         False])) w) = [4])"
proof -
  let ?D = "session0\<lparr>val_status := 4\<rparr>" and ?W = "bus0 [False, False, False, False, False, False, False, False, False, False,
              False, False, False, False, False, False, False, False, False, False]"
  let ?U = "sht15_update_status 100 0 0 (?D, ?W)"
  let ?env = "\<lparr>irq_on_enable = False, wait_sched = [Irq_edge, Work_runs False]\<rparr>"
  let ?D' = "session0\<lparr>val_status := 4, state := SHT15_READING_HUMID\<rparr>"
  let ?W' = "bus0 (False # True # [False, False, False, False, False, False, False, False, False, False,
              False, False, False, False, False, False, False, False, False, False] @ [False, False, False, False, False, False, False,
                                         False])"
  let ?M = "sht15_measurement ?env SHT15_MEASURE_RH 160 (?D', ?W')"
  have a: "?U = (fst ?U, fst (snd ?U), snd (snd ?U))
      \<or> sht15_measurement ?env SHT15_MEASURE_RH 160 (?D, ?W)
          = (fst ?U, fst (snd ?U), snd (snd ?U))"
    by simp
  have b: "sht15_update_status 100 0 0 (?D', ?W') = (fst ?M, fst (snd ?M), snd (snd ?M))
      \<or> ?M = (fst ?M, fst (snd ?M), snd (snd ?M))"
    by simp
  show ?thesis
    using recovery_reissues_low_three_bits [OF a] recovery_reissues_low_three_bits [OF b]
    by (simp add: driver_defs run_defs crc_status_4 crc_measure_4 rev_0)
qed

text \<open>
  C3, as stated, fails: after a timed-out humidity measurement \<open>data->state\<close> is
  still \<open>SHT15_READING_HUMID\<close>.
\<close>

theorem timeout_leaves_state_counterexample:
  "fst (sht15_measurement \<lparr>irq_on_enable = False, wait_sched = [Work_runs False]\<rparr>
          SHT15_MEASURE_RH 160
          (session0\<lparr>state := SHT15_READING_HUMID\<rparr>, bus0 [False, True])) = Inl ETIME
   \<and> state (fst (snd (sht15_measurement
          \<lparr>irq_on_enable = False, wait_sched = [Work_runs False]\<rparr>
          SHT15_MEASURE_RH 160
          (session0\<lparr>state := SHT15_READING_HUMID\<rparr>, bus0 [False, True]))))
       \<noteq> SHT15_READING_NOTHING"
  by (simp add: driver_defs run_defs)

theorem measurement_timeout_witness:
  "(case sht15_measurement \<lparr>irq_on_enable = False, wait_sched = [Work_runs False]\<rparr>
            SHT15_MEASURE_RH 160
            (session0\<lparr>state := SHT15_READING_HUMID\<rparr>, bus0 [False, True]) of
      (r, d, w) \<Rightarrow> r = Inl ETIME \<and> state d = SHT15_READING_HUMID
        \<and> new_calls (bus0 [False, True]) w =
            [Send_cmd SHT15_MEASURE_RH, Send_byte SHT15_MEASURE_RH, Wait_event_timeout 160]
        \<and> irq_depth w = 1
        \<and> Disable_irq_nosync \<in> set (trace w))"
proof -
  let ?env = "\<lparr>irq_on_enable = False, wait_sched = [Work_runs False]\<rparr>"
  let ?D = "session0\<lparr>state := SHT15_READING_HUMID\<rparr>" and ?W = "bus0 [False, True]"
  let ?w1 = "snd (sht15_send_cmd SHT15_MEASURE_RH ?W)"
  let ?M = "sht15_measurement ?env SHT15_MEASURE_RH 160 (?D, ?W)"
  have cmd: "sht15_send_cmd SHT15_MEASURE_RH ?W = (Inr (), ?w1)"
    by (simp add: run_defs)
  have busy: "state ?D \<noteq> SHT15_READING_NOTHING" by simp
  have no_early: "\<not> irq_on_enable ?env" by simp
  have line_high: "fst (gpio_get_value (enable_irq (gpio_direction_input Gpio_data ?w1)))"
    by (simp add: run_defs)
  have no_irq: "Irq_edge \<notin> set (wait_sched ?env)" by simp
  have no_work: "\<not> work_pending ?W" by (simp add: bus0_def)
  note t = measurement_timeout [OF cmd busy no_early line_high no_irq no_work
      triple_collapse [of ?M], of 0 100 0 ?env ?env]
  have calls: "new_calls ?W (snd (snd ?M)) =
      [Send_cmd SHT15_MEASURE_RH, Send_byte SHT15_MEASURE_RH, Wait_event_timeout 160]"
    using t by blast
  have depth: "irq_depth (snd (snd ?M)) = 1"
    using t by (simp add: bus0_def)
  have "trace (snd (snd ?M)) =
        trace ?w1 @ [Gpio_direction_input Gpio_data, Enable_irq,
                    Wait_event_timeout 160, Disable_irq_nosync]
        @ connection_reset_events"
    using t by blast
  then have dis: "Disable_irq_nosync \<in> set (trace (snd (snd ?M)))" by simp
  have "fst ?M = Inl ETIME \<and> state (fst (snd ?M)) = SHT15_READING_HUMID"
    using t by simp
  with calls depth dis show ?thesis by (simp add: case_prod_beta)
qed

text \<open>
  C5, as stated, fails once the 32-bit tick counter has run more than half its range
  past the time stamp: 2^31 + 101 ticks after a valid status was cached, with \<open>HZ\<close>
  = 100, the window has long elapsed and yet the access sends nothing.
\<close>

theorem staleness_wrap_counterexample:
  "unat (100 :: ulong) < 2147483749
   \<and> sht15_update_status 100 (1000 + of_nat 2147483749) 0 (session0\<lparr>status_valid := True, measurements_valid := True, last_measurement := 1000, last_status := 1000\<rparr>, bus0 [])
       = (Inr (), session0\<lparr>status_valid := True, measurements_valid := True, last_measurement := 1000, last_status := 1000\<rparr>, bus0 [])"
  by (simp add: sht15_update_status_def time_after_def session0_def)

theorem staleness_window_witness:
  "sht15_update_status 100 1050 0 (session0\<lparr>status_valid := True, measurements_valid := True, last_measurement := 1000, last_status := 1000\<rparr>, bus0 []) = (Inr (), session0\<lparr>status_valid := True, measurements_valid := True, last_measurement := 1000, last_status := 1000\<rparr>, bus0 [])
   \<and> count_list (cmds_of (new_calls (bus0 [])
        (snd (snd (sht15_update_status 100 1101 0 (session0\<lparr>status_valid := True, measurements_valid := True, last_measurement := 1000, last_status := 1000\<rparr>, bus0 []))))))
        SHT15_READ_STATUS = 1
   \<and> sht15_update_measurements 100 1050 0 \<lparr>irq_on_enable = False, wait_sched = []\<rparr>
        \<lparr>irq_on_enable = False, wait_sched = []\<rparr> (session0\<lparr>status_valid := True, measurements_valid := True, last_measurement := 1000, last_status := 1000\<rparr>, bus0 []) = (Inr (), session0\<lparr>status_valid := True, measurements_valid := True, last_measurement := 1000, last_status := 1000\<rparr>, bus0 [])
   \<and> count_list (cmds_of (new_calls (bus0 [])
        (snd (snd (sht15_update_measurements 100 1101 0
           \<lparr>irq_on_enable = False, wait_sched = []\<rparr>
           \<lparr>irq_on_enable = False, wait_sched = []\<rparr> (session0\<lparr>status_valid := True, measurements_valid := True, last_measurement := 1000, last_status := 1000\<rparr>, bus0 []))))))
        SHT15_MEASURE_RH = 1
   \<and> count_list (cmds_of (new_calls (bus0 [])
        (snd (snd (sht15_update_status 100 1050 0 (session0, bus0 []))))))
        SHT15_READ_STATUS = 1"
proof -
  let ?env = "\<lparr>irq_on_enable = False, wait_sched = []\<rparr>"
  have fresh: "(50 :: nat) + unat (100 :: ulong) < 2 ^ 31" by simp
  have stale: "(101 :: nat) + unat (100 :: ulong) < 2 ^ 31" by simp
  note a = staleness_window [OF fresh, where data = "session0\<lparr>status_valid := True, measurements_valid := True, last_measurement := 1000, last_status := 1000\<rparr>" and stored = 0 and w = "bus0 []"
      and env_humid = ?env and env_temp = ?env and now = 1050]
  note b = staleness_window [OF stale, where data = "session0\<lparr>status_valid := True, measurements_valid := True, last_measurement := 1000, last_status := 1000\<rparr>" and stored = 0 and w = "bus0 []"
      and env_humid = ?env and env_temp = ?env and now = 1101]
  note c = staleness_window [OF fresh, where data = session0 and stored = 0 and w = "bus0 []"
      and env_humid = ?env and env_temp = ?env and now = 1050]
  have sv: "\<not> status_valid session0" by (simp add: session0_def)
  show ?thesis using a b c sv by (simp add: session0_def)
qed

theorem update_measurements_order_witness:
  "(case sht15_update_measurements 100 7 7
            \<lparr>irq_on_enable = False, wait_sched = [Irq_edge, Work_runs False]\<rparr>
            \<lparr>irq_on_enable = False, wait_sched = [Irq_edge, Work_runs False]\<rparr>
            (session0\<lparr>checksumming := False\<rparr>,
             bus0 ([False, True, False, False, False, False, False, False, False, False, False,
           False, False, False, False, False, False, False, False]
                   @ [False, True, False, False, False, False, False, False, False, False, False,
           False, False, False, False, False, False, False, False])) of
      (r, d, w) \<Rightarrow> r = Inr () \<and> measurements_valid d \<and> last_measurement d = 7
        \<and> filter is_measurement_step
             (new_calls (bus0 ([False, True, False, False, False, False, False, False, False, False, False,
           False, False, False, False, False, False, False, False]
                   @ [False, True, False, False, False, False, False, False, False, False, False,
           False, False, False, False, False, False, False, False])) w) =
            [Send_cmd SHT15_MEASURE_RH, Wait_event_timeout 160,
             Send_cmd SHT15_MEASURE_TEMP, Wait_event_timeout 400])
   \<and> (case sht15_update_measurements 100 7 7
            \<lparr>irq_on_enable = False, wait_sched = []\<rparr>
            \<lparr>irq_on_enable = False, wait_sched = []\<rparr>
            (session0, bus0 [True]) of
      (r, d, w) \<Rightarrow> r = Inl EIO \<and> \<not> measurements_valid d \<and> last_measurement d = 0)"
proof -
  have ev: "(case sht15_update_measurements 100 7 7
              \<lparr>irq_on_enable = False, wait_sched = [Irq_edge, Work_runs False]\<rparr>
              \<lparr>irq_on_enable = False, wait_sched = [Irq_edge, Work_runs False]\<rparr>
              (session0\<lparr>checksumming := False\<rparr>,
               bus0 ([False, True, False, False, False, False, False, False, False, False, False,
             False, False, False, False, False, False, False, False]
                     @ [False, True, False, False, False, False, False, False, False, False, False,
             False, False, False, False, False, False, False, False])) of
        (r, d, w) \<Rightarrow> r = Inr () \<and> measurements_valid d \<and> last_measurement d = 7
          \<and> filter is_measurement_step
               (new_calls (bus0 ([False, True, False, False, False, False, False, False, False, False, False,
             False, False, False, False, False, False, False, False]
                     @ [False, True, False, False, False, False, False, False, False, False, False,
             False, False, False, False, False, False, False, False])) w) =
              [Send_cmd SHT15_MEASURE_RH, Wait_event_timeout 160,
               Send_cmd SHT15_MEASURE_TEMP, Wait_event_timeout 400])
     \<and> (case sht15_update_measurements 100 7 7
              \<lparr>irq_on_enable = False, wait_sched = []\<rparr>
              \<lparr>irq_on_enable = False, wait_sched = []\<rparr>
              (session0, bus0 [True]) of
        (r, d, w) \<Rightarrow> r = Inl EIO \<and> \<not> measurements_valid d \<and> last_measurement d = 0)"
    by (simp add: driver_defs run_defs SHT15_STATUS_HEATER_def)
  let ?env = "\<lparr>irq_on_enable = False, wait_sched = [Irq_edge, Work_runs False]\<rparr>"
  let ?D = "session0\<lparr>checksumming := False\<rparr>"
  let ?W = "bus0 ([False, True, False, False, False, False, False, False, False, False, False,
           False, False, False, False, False, False, False, False]
                   @ [False, True, False, False, False, False, False, False, False, False, False,
           False, False, False, False, False, False, False, False])"
  let ?M1 = "sht15_measurement ?env SHT15_MEASURE_RH 160 (?D\<lparr>state := SHT15_READING_HUMID\<rparr>, ?W)"
  let ?M2 = "sht15_measurement ?env SHT15_MEASURE_TEMP 400
      ((fst (snd ?M1))\<lparr>state := SHT15_READING_TEMP\<rparr>, snd (snd ?M1))"
  let ?U = "sht15_update_measurements 100 7 7 ?env ?env (?D, ?W)"
  let ?env0 = "\<lparr>irq_on_enable = False, wait_sched = []\<rparr>"
  let ?N1 = "sht15_measurement ?env0 SHT15_MEASURE_RH 160
      (session0\<lparr>state := SHT15_READING_HUMID\<rparr>, bus0 [True])"
  let ?N2 = "sht15_measurement ?env0 SHT15_MEASURE_TEMP 400
      ((fst (snd ?N1))\<lparr>state := SHT15_READING_TEMP\<rparr>, snd (snd ?N1))"
  let ?V = "sht15_update_measurements 100 7 7 ?env0 ?env0 (session0, bus0 [True])"
  have stale: "time_after 7 (last_measurement ?D + 100) \<or> \<not> measurements_valid ?D"
    by (simp add: session0_def)
  have stale0: "time_after 7 (last_measurement session0 + 100) \<or> \<not> measurements_valid session0"
    by (simp add: session0_def)
  note t = update_measurements_order [OF stale triple_collapse [of ?M1]
      triple_collapse [of ?M2] triple_collapse [of ?U]]
  note u = update_measurements_order [OF stale0 triple_collapse [of ?N1]
      triple_collapse [of ?N2] triple_collapse [of ?V]]
  show ?thesis using t u  by - (rule ev)
qed

theorem store_heater_effect_witness:
  "(case sht15_store_heater (Some 1) 2 (session0\<lparr>val_status := 0x43\<rparr>, bus0 [False, False]) of
      (r, d, w) \<Rightarrow> r = Inr 2 \<and> val_status d = 0x07
        \<and> new_calls (bus0 [False, False]) w =
            [Send_cmd SHT15_WRITE_STATUS, Send_byte SHT15_WRITE_STATUS, Send_byte 0x07])
   \<and> (case sht15_store_heater (Some 0) 2 (session0\<lparr>val_status := 0x47\<rparr>, bus0 [False, True]) of
      (r, d, w) \<Rightarrow> r = Inl EIO \<and> val_status d = 0x47
        \<and> new_calls (bus0 [False, True]) w =
            [Send_cmd SHT15_WRITE_STATUS, Send_byte SHT15_WRITE_STATUS, Send_byte 0x03])"
proof -
  have ev: "(case sht15_store_heater (Some 1) 2 (session0\<lparr>val_status := 0x43\<rparr>, bus0 [False, False]) of
        (r, d, w) \<Rightarrow> r = Inr 2 \<and> val_status d = 0x07
          \<and> new_calls (bus0 [False, False]) w =
              [Send_cmd SHT15_WRITE_STATUS, Send_byte SHT15_WRITE_STATUS, Send_byte 0x07])
     \<and> (case sht15_store_heater (Some 0) 2 (session0\<lparr>val_status := 0x47\<rparr>, bus0 [False, True]) of
        (r, d, w) \<Rightarrow> r = Inl EIO \<and> val_status d = 0x47
          \<and> new_calls (bus0 [False, True]) w =
              [Send_cmd SHT15_WRITE_STATUS, Send_byte SHT15_WRITE_STATUS, Send_byte 0x03])"
    by (simp add: driver_defs run_defs SHT15_STATUS_HEATER_def)
  let ?A = "sht15_store_heater (Some 1) 2 (session0\<lparr>val_status := 0x43\<rparr>, bus0 [False, False])"
  let ?B = "sht15_store_heater (Some 0) 2 (session0\<lparr>val_status := 0x47\<rparr>, bus0 [False, True])"
  note a = store_heater_effect [OF triple_collapse [of ?A] refl]
  note b = store_heater_effect [OF triple_collapse [of ?B] refl]
  show ?thesis using a b by - (rule ev)
qed

end
